theory Spec2Isabelle
  imports Main
begin

section \<open>Text primitives of the host language\<close>

text \<open>
  Texts are \<^typ>\<open>string\<close>s. A \<^typ>\<open>char\<close> stands for one code point below 256, so the
  development covers texts over that range. \<open>is_space\<close> is the set of code points
  below 256 that \<^verbatim>\<open>str.strip()\<close>, \<^verbatim>\<open>str.isspace()\<close> and the regular expression class
  \<^verbatim>\<open>\s\<close> treat as whitespace.
\<close>

definition is_space :: "char \<Rightarrow> bool" where
  "is_space c = (of_char c \<in> {9, 10, 11, 12, 13, 28, 29, 30, 31, 32, 133, 160 :: nat})"

definition lstrip :: "string \<Rightarrow> string" where
  "lstrip s = dropWhile is_space s"

definition rstrip :: "string \<Rightarrow> string" where
  "rstrip s = rev (dropWhile is_space (rev s))"

definition strip :: "string \<Rightarrow> string" where
  "strip s = rstrip (lstrip s)"

definition startswith :: "string \<Rightarrow> string \<Rightarrow> bool" where
  "startswith s p = (take (length p) s = p)"

definition backslash :: char where
  "backslash = CHR 0x5C"

definition dquote :: char where
  "dquote = CHR 0x22"

section \<open>Completeness analyzer\<close>

text \<open>
  \<^verbatim>\<open>is_json_complete\<close>: the \<^verbatim>\<open>for char in json_str\<close> loop with its three local variables.
  The stack is a Python list: \<^verbatim>\<open>append\<close> adds at the end and \<^verbatim>\<open>pop\<close> removes the last
  element. Each \<^verbatim>\<open>return False\<close> inside the loop ends the scan with \<open>False\<close>.
\<close>

fun scan_json :: "char list \<Rightarrow> bool \<Rightarrow> bool \<Rightarrow> string \<Rightarrow> bool" where
  "scan_json stack in_string escape_next [] = (length stack = 0 \<and> \<not> in_string)"
| "scan_json stack in_string escape_next (ch # rest) =
     (if escape_next then scan_json stack in_string False rest
      else if ch = backslash then scan_json stack in_string True rest
      else if ch = dquote \<and> \<not> escape_next then scan_json stack (\<not> in_string) escape_next rest
      else if in_string then scan_json stack in_string escape_next rest
      else if ch \<in> set ''{['' then scan_json (stack @ [ch]) in_string escape_next rest
      else if ch \<in> set ''}]'' then
        (if stack = [] then False
         else
           (let lst = last stack; stack' = butlast stack in
            if (ch = CHR ''}'' \<and> lst \<noteq> CHR ''{'') \<or> (ch = CHR '']'' \<and> lst \<noteq> CHR ''['')
            then False
            else scan_json stack' in_string escape_next rest))
      else scan_json stack in_string escape_next rest)"

definition is_json_complete :: "string \<Rightarrow> bool" where
  "is_json_complete json_str =
     (if json_str = [] \<or> strip json_str = [] then False
      else
        (let s = strip json_str in
         if \<not> (startswith s ''{'' \<or> startswith s ''['') then False
         else scan_json [] False False s))"

subsection \<open>The scan as the specification words it\<close>

text \<open>
  The specification describes the analyzer as one left-to-right pass over a state of three
  components. \<open>spec_step\<close> is that pass, one character at a time; \<open>bad\<close> records that a
  closer did not match the top of the stack. The flag \<open>anywhere\<close> selects what a
  backslash outside a string does: with \<open>False\<close> only a backslash inside a string sets
  the pending-escape flag (the specification's wording), with \<open>True\<close> every backslash does.
\<close>

record scan_state =
  open_stack :: "char list"
  in_str :: bool
  pending :: bool
  bad :: bool

definition scan_init :: scan_state where
  "scan_init = \<lparr>open_stack = [], in_str = False, pending = False, bad = False\<rparr>"

definition closes :: "char \<Rightarrow> char \<Rightarrow> bool" where
  "closes opener closer =
     ((opener = CHR ''{'' \<and> closer = CHR ''}'') \<or> (opener = CHR ''['' \<and> closer = CHR '']''))"

definition spec_step :: "bool \<Rightarrow> scan_state \<Rightarrow> char \<Rightarrow> scan_state" where
  "spec_step anywhere st c =
     (if bad st then st
      else if pending st then st\<lparr>pending := False\<rparr>
      else if c = backslash \<and> (anywhere \<or> in_str st) then st\<lparr>pending := True\<rparr>
      else if c = dquote then st\<lparr>in_str := \<not> in_str st\<rparr>
      else if in_str st then st
      else if c = CHR ''{'' \<or> c = CHR ''['' then st\<lparr>open_stack := c # open_stack st\<rparr>
      else if c = CHR ''}'' \<or> c = CHR '']'' then
        (case open_stack st of
           [] \<Rightarrow> st\<lparr>bad := True\<rparr>
         | opener # below \<Rightarrow>
             if closes opener c then st\<lparr>open_stack := below\<rparr> else st\<lparr>bad := True\<rparr>)
      else st)"

definition accepted :: "scan_state \<Rightarrow> bool" where
  "accepted st = (\<not> bad st \<and> open_stack st = [] \<and> \<not> in_str st)"

definition spec_complete :: "bool \<Rightarrow> string \<Rightarrow> bool" where
  "spec_complete anywhere text =
     (let s = strip text in
      (startswith s ''{'' \<or> startswith s ''['') \<and> accepted (foldl (spec_step anywhere) scan_init s))"

section \<open>XML tool-call converter\<close>

text \<open>
  \<^verbatim>\<open>detect_and_convert_xml_tool_call\<close> consists of two regular-expression calls.
  \<^verbatim>\<open>re.search(r'<function=([^>]+)>', content)\<close> finds the leftmost position where the
  literal \<^verbatim>\<open><function=\<close> is followed by one or more characters other than \<^verbatim>\<open>>\<close> and
  then \<^verbatim>\<open>>\<close>; the class is greedy and cannot cross a \<^verbatim>\<open>>\<close>, so group 1 is the text up
  to the next \<^verbatim>\<open>>\<close>. \<open>match_open_tag\<close> is the match of such a tag at the start
  of a text and \<open>search_function\<close> the leftmost search.

  \<^verbatim>\<open>re.findall(r'<parameter=([^>]+)>\s*([^<]*?)\s*</parameter>', content, re.DOTALL)\<close>
  collects the groups of the leftmost matches, each search resuming where the
  previous match ended. Between the \<^verbatim>\<open>>\<close> of the opening tag and the next \<^verbatim>\<open><\<close> (which
  must begin the closing tag) the greedy \<^verbatim>\<open>\s*\<close> takes the leading whitespace, the lazy
  group the shortest text leaving only whitespace, so group 2 is that text stripped.
  A Python dict keeps the position of a key that is assigned again: \<open>dict_set\<close>.
\<close>

fun dict_set :: "('k \<times> 'v) list \<Rightarrow> 'k \<Rightarrow> 'v \<Rightarrow> ('k \<times> 'v) list" where
  "dict_set [] k v = [(k, v)]"
| "dict_set ((k', v') # d) k v = (if k' = k then (k, v) # d else (k', v') # dict_set d k v)"

definition match_open_tag :: "string \<Rightarrow> string \<Rightarrow> (string \<times> string) option" where
  "match_open_tag lit s =
     (if startswith s lit then
        (let r = drop (length lit) s;
             name = takeWhile (\<lambda>c. c \<noteq> CHR ''>'') r;
             rest = dropWhile (\<lambda>c. c \<noteq> CHR ''>'') r
         in if name \<noteq> [] \<and> rest \<noteq> [] then Some (name, tl rest) else None)
      else None)"

fun search_function :: "string \<Rightarrow> string option" where
  "search_function [] = None"
| "search_function (c # cs) =
     (case match_open_tag ''<function='' (c # cs) of
        Some (name, rest) \<Rightarrow> Some name
      | None \<Rightarrow> search_function cs)"

definition match_parameter :: "string \<Rightarrow> ((string \<times> string) \<times> string) option" where
  "match_parameter s =
     (case match_open_tag ''<parameter='' s of
        None \<Rightarrow> None
      | Some (name, r) \<Rightarrow>
          (let body = takeWhile (\<lambda>c. c \<noteq> CHR ''<'') r;
               rest = dropWhile (\<lambda>c. c \<noteq> CHR ''<'') r
           in if startswith rest ''</parameter>''
              then Some ((name, strip body), drop (length ''</parameter>'') rest)
              else None))"

fun search_parameter :: "string \<Rightarrow> ((string \<times> string) \<times> string) option" where
  "search_parameter [] = None"
| "search_parameter (c # cs) =
     (case match_parameter (c # cs) of
        Some r \<Rightarrow> Some r
      | None \<Rightarrow> search_parameter cs)"

lemma match_open_tag_shorter:
  "match_open_tag lit s = Some (name, rest) \<Longrightarrow> length rest < length s"
proof -
  assume a: "match_open_tag lit s = Some (name, rest)"
  let ?r = "drop (length lit) s"
  let ?d = "dropWhile (\<lambda>c. c \<noteq> CHR ''>'') ?r"
  from a have d: "?d \<noteq> []" and r: "rest = tl ?d"
    by (auto simp add: match_open_tag_def Let_def split: if_splits)
  have "length ?d \<le> length ?r" by (rule length_dropWhile_le)
  moreover have "length (tl ?d) < length ?d" using d by (cases ?d) auto
  ultimately show ?thesis using r by simp
qed

lemma match_parameter_shorter:
  "match_parameter s = Some (g, rest) \<Longrightarrow> length rest < length s"
proof -
  assume a: "match_parameter s = Some (g, rest)"
  then obtain name r where m: "match_open_tag ''<parameter='' s = Some (name, r)"
    and rest: "rest = drop (length ''</parameter>'') (dropWhile (\<lambda>c. c \<noteq> CHR ''<'') r)"
    by (auto simp add: match_parameter_def Let_def split: option.splits if_splits)
  have "length rest \<le> length (dropWhile (\<lambda>c. c \<noteq> CHR ''<'') r)" using rest by simp
  also have "\<dots> \<le> length r" by (rule length_dropWhile_le)
  also have "\<dots> < length s" using m by (rule match_open_tag_shorter)
  finally show ?thesis .
qed

lemma search_parameter_shorter:
  "search_parameter s = Some (g, rest) \<Longrightarrow> length rest < length s"
proof (induction s)
  case Nil
  then show ?case by simp
next
  case (Cons c cs)
  show ?case
  proof (cases "match_parameter (c # cs)")
    case None
    then have "search_parameter cs = Some (g, rest)" using Cons.prems by simp
    then have "length rest < length cs" by (rule Cons.IH)
    then show ?thesis by simp
  next
    case (Some r)
    then have "match_parameter (c # cs) = Some (g, rest)" using Cons.prems by simp
    then show ?thesis by (rule match_parameter_shorter)
  qed
qed

function findall_parameters :: "string \<Rightarrow> (string \<times> string) list" where
  "findall_parameters s =
     (case search_parameter s of
        None \<Rightarrow> []
      | Some (g, rest) \<Rightarrow> g # findall_parameters rest)"
  by pat_completeness auto
termination
  by (relation "measure length") (auto dest: search_parameter_shorter)

definition detect_and_convert_xml_tool_call :: "string \<Rightarrow> (string \<times> (string \<times> string) list) option" where
  "detect_and_convert_xml_tool_call content =
     (case search_function content of
        None \<Rightarrow> None
      | Some g1 \<Rightarrow>
          (let function_name = strip g1;
               param_matches = findall_parameters content
           in if param_matches = [] then None
              else Some (function_name,
                     foldl (\<lambda>args_obj (param_name, param_value).
                              dict_set args_obj (strip param_name) (strip param_value))
                       [] param_matches)))"



subsection \<open>Tags as the specification words them\<close>

text \<open>
  A function tag is an occurrence of \<^verbatim>\<open><function=NAME>\<close> with a non-empty name free of
  \<^verbatim>\<open>>\<close>; a parameter tag an occurrence of \<^verbatim>\<open><parameter=KEY>VALUE</parameter>\<close> whose
  value is free of \<^verbatim>\<open><\<close>. A text is trimmed when it neither starts nor ends with
  whitespace.
\<close>

definition has_function_tag :: "string \<Rightarrow> bool" where
  "has_function_tag s =
     (\<exists>pre name post. s = pre @ ''<function='' @ name @ ''>'' @ post \<and>
        name \<noteq> [] \<and> CHR ''>'' \<notin> set name)"

definition has_parameter_tag :: "string \<Rightarrow> bool" where
  "has_parameter_tag s =
     (\<exists>pre name body post.
        s = pre @ ''<parameter='' @ name @ ''>'' @ body @ ''</parameter>'' @ post \<and>
        name \<noteq> [] \<and> CHR ''>'' \<notin> set name \<and> CHR ''<'' \<notin> set body)"

definition trimmed :: "string \<Rightarrow> bool" where
  "trimmed v = (v = [] \<or> (\<not> is_space (hd v) \<and> \<not> is_space (last v)))"

section \<open>JSON values and the library functions the proxy calls\<close>

text \<open>
  Values of the host language that a JSON text denotes. A dict is an association list
  in insertion order with distinct keys. \<open>py_error\<close> names the exceptions the
  modelled code can raise. \<open>py_lib\<close> collects the library functions the proxy calls:
  \<^verbatim>\<open>json.loads\<close> (\<open>None\<close> when it raises), \<^verbatim>\<open>json.dumps(..., ensure_ascii=False)\<close>, and
  \<^verbatim>\<open>uuid.uuid4().hex\<close>, the \<open>n\<close>-th draw of a run being \<open>uuid_hex n\<close>.
\<close>

datatype json =
    JNull
  | JBool bool
  | JInt int
  | JFloat string
  | JStr string
  | JArr "json list"
  | JObj "(string \<times> json) list"

datatype py_error = AttributeError | KeyError | IndexError | JSONDecodeError

record py_lib =
  loads :: "string \<Rightarrow> json option"
  dumps :: "json \<Rightarrow> string"
  uuid_hex :: "nat \<Rightarrow> string"

definition lower_char :: "char \<Rightarrow> char" where
  "lower_char c =
     (let n = (of_char c :: nat)
      in if (65 \<le> n \<and> n \<le> 90) \<or> (192 \<le> n \<and> n \<le> 222 \<and> n \<noteq> 215)
         then char_of (n + 32) else c)"

definition lower :: "string \<Rightarrow> string" where
  "lower s = map lower_char s"

definition dict_del :: "('k \<times> 'v) list \<Rightarrow> 'k \<Rightarrow> ('k \<times> 'v) list" where
  "dict_del d k = filter (\<lambda>kv. fst kv \<noteq> k) d"

fun float_is_zero :: "string \<Rightarrow> bool" where
  "float_is_zero [] = True"
| "float_is_zero (c # cs) =
     (if c = CHR ''e'' \<or> c = CHR ''E'' then True
      else if c \<in> set ''123456789NI'' then False
      else float_is_zero cs)"

fun truthy :: "json \<Rightarrow> bool" where
  "truthy JNull = False"
| "truthy (JBool b) = b"
| "truthy (JInt n) = (n \<noteq> 0)"
| "truthy (JFloat s) = (\<not> float_is_zero s)"
| "truthy (JStr s) = (s \<noteq> [])"
| "truthy (JArr xs) = (xs \<noteq> [])"
| "truthy (JObj d) = (d \<noteq> [])"

fun py_eq :: "json \<Rightarrow> json \<Rightarrow> bool" where
  "py_eq (JBool a) (JInt b) = ((if a then 1 else 0) = b)"
| "py_eq (JInt a) (JBool b) = (a = (if b then 1 else 0))"
| "py_eq (JArr xs) (JArr ys) = (length xs = length ys \<and> list_all2 py_eq xs ys)"
| "py_eq (JObj d) (JObj e) =
     (length d = length e \<and>
      list_all (\<lambda>(k, v). case map_of e k of None \<Rightarrow> False | Some w \<Rightarrow> py_eq v w) d)"
| "py_eq a b = (a = b)"

subsection \<open>A reference implementation of the JSON library\<close>

text \<open>
  \<^verbatim>\<open>json.loads\<close> and \<^verbatim>\<open>json.dumps(..., ensure_ascii=False)\<close> belong to the standard library.
  The functions of the proxy take them from a \<^typ>\<open>py_lib\<close>, so every general theorem
  holds for any decoder and encoder. The functions below follow the structure of the
  library's decoder (\<^verbatim>\<open>scan_once\<close>, \<^verbatim>\<open>JSONObject\<close>, \<^verbatim>\<open>JSONArray\<close>, \<^verbatim>\<open>scanstring\<close>) and of its
  encoder; closed examples are evaluated with them. Two limits: a number with a fraction
  or an exponent is kept as its literal (\<open>JFloat\<close>), where the library rounds it to a
  double and prints the shortest representation of that double; an escape \<^verbatim>\<open>\uXXXX\<close> for a
  code point of 256 or rst denotes a character outside \<^typ>\<open>char\<close> and is rejected.
  Recursion is bounded by fuel; \<open>OutOfFuel\<close> is kept apart from a syntax error.
\<close>

datatype parse_error = SyntaxError | OutOfFuel

definition json_ws :: "char \<Rightarrow> bool" where
  "json_ws c = (c = CHR '' '' \<or> c = CHR 0x09 \<or> c = CHR 0x0A \<or> c = CHR 0x0D)"

definition skip_ws :: "string \<Rightarrow> string" where
  "skip_ws s = dropWhile json_ws s"

definition is_digit :: "char \<Rightarrow> bool" where
  "is_digit c = (48 \<le> (of_char c :: nat) \<and> (of_char c :: nat) \<le> 57)"

definition hex_value :: "char \<Rightarrow> nat option" where
  "hex_value c =
     (let n = (of_char c :: nat)
      in if 48 \<le> n \<and> n \<le> 57 then Some (n - 48)
         else if 97 \<le> n \<and> n \<le> 102 then Some (n - 87)
         else if 65 \<le> n \<and> n \<le> 70 then Some (n - 55)
         else None)"

definition hex4 :: "char \<Rightarrow> char \<Rightarrow> char \<Rightarrow> char \<Rightarrow> nat option" where
  "hex4 a b c d =
     (case (hex_value a, hex_value b, hex_value c, hex_value d) of
        (Some w, Some x, Some y, Some z) \<Rightarrow> Some (4096 * w + 256 * x + 16 * y + z)
      | _ \<Rightarrow> None)"

definition unescape :: "char \<Rightarrow> char option" where
  "unescape e =
     (if e = dquote then Some dquote
      else if e = backslash then Some backslash
      else if e = CHR ''/'' then Some (CHR ''/'')
      else if e = CHR ''b'' then Some (CHR 0x08)
      else if e = CHR ''f'' then Some (CHR 0x0C)
      else if e = CHR ''n'' then Some (CHR 0x0A)
      else if e = CHR ''r'' then Some (CHR 0x0D)
      else if e = CHR ''t'' then Some (CHR 0x09)
      else None)"

fun scanstring :: "string \<Rightarrow> (string \<times> string) option" where
  "scanstring [] = None"
| "scanstring [c] = (if c = dquote then Some ([], []) else None)"
| "scanstring (c # e # es) =
     (if c = dquote then Some ([], e # es)
      else if c = backslash then
        (if e = CHR ''u'' then
           (case es of
              h1 # h2 # h3 # h4 # rst \<Rightarrow>
                (case hex4 h1 h2 h3 h4 of
                   Some n \<Rightarrow>
                     (if n < 256 then
                        (case scanstring rst of
                           Some (t, r) \<Rightarrow> Some (char_of n # t, r)
                         | None \<Rightarrow> None)
                      else None)
                 | None \<Rightarrow> None)
            | _ \<Rightarrow> None)
         else
           (case unescape e of
              Some ch \<Rightarrow>
                (case scanstring es of
                   Some (t, r) \<Rightarrow> Some (ch # t, r)
                 | None \<Rightarrow> None)
            | None \<Rightarrow> None))
      else if (of_char c :: nat) < 32 then None
      else
        (case scanstring (e # es) of
           Some (t, r) \<Rightarrow> Some (c # t, r)
         | None \<Rightarrow> None))"

definition digits_value :: "string \<Rightarrow> int" where
  "digits_value ds = foldl (\<lambda>a c. 10 * a + ((of_char c :: int) - 48)) 0 ds"

definition scan_number :: "string \<Rightarrow> (json \<times> string) option" where
  "scan_number s =
     (let neg = startswith s ''-'';
          s1 = (if neg then tl s else s);
          ds = (if startswith s1 ''0'' then ''0'' else takeWhile is_digit s1);
          r1 = drop (length ds) s1;
          fr = (case r1 of
                  dot # rst \<Rightarrow>
                    (if dot = CHR ''.'' \<and> takeWhile is_digit rst \<noteq> []
                     then dot # takeWhile is_digit rst else [])
                | [] \<Rightarrow> []);
          r2 = drop (length fr) r1;
          ex = (case r2 of
                  e # rst \<Rightarrow>
                    (if e = CHR ''e'' \<or> e = CHR ''E'' then
                       (let sg = (if startswith rst ''-'' \<or> startswith rst ''+''
                                  then take 1 rst else []);
                            eds = takeWhile is_digit (drop (length sg) rst)
                        in if eds \<noteq> [] then e # sg @ eds else [])
                     else [])
                | [] \<Rightarrow> []);
          r3 = drop (length ex) r2
      in if ds = [] then None
         else if fr = [] \<and> ex = [] then
           Some (JInt (if neg then - digits_value ds else digits_value ds), r3)
         else Some (JFloat ((if neg then ''-'' else []) @ ds @ fr @ ex), r3))"

fun parse_value :: "nat \<Rightarrow> string \<Rightarrow> parse_error + (json \<times> string)"
  and parse_items :: "nat \<Rightarrow> json list \<Rightarrow> string \<Rightarrow> parse_error + (json \<times> string)"
  and parse_members :: "nat \<Rightarrow> (string \<times> json) list \<Rightarrow> string \<Rightarrow> parse_error + (json \<times> string)"
  where
  "parse_value 0 s = Inl OutOfFuel"
| "parse_value (Suc f) s =
     (case s of
        [] \<Rightarrow> Inl SyntaxError
      | c # cs \<Rightarrow>
          if c = dquote then
            (case scanstring cs of
               Some (t, r) \<Rightarrow> Inr (JStr t, r)
             | None \<Rightarrow> Inl SyntaxError)
          else if c = CHR ''{'' then
            (case skip_ws cs of
               [] \<Rightarrow> Inl SyntaxError
             | d # r \<Rightarrow> if d = CHR ''}'' then Inr (JObj [], r) else parse_members f [] (d # r))
          else if c = CHR ''['' then
            (case skip_ws cs of
               [] \<Rightarrow> Inl SyntaxError
             | d # r \<Rightarrow> if d = CHR '']'' then Inr (JArr [], r) else parse_items f [] (d # r))
          else if startswith s ''null'' then Inr (JNull, drop 4 s)
          else if startswith s ''true'' then Inr (JBool True, drop 4 s)
          else if startswith s ''false'' then Inr (JBool False, drop 5 s)
          else
            (case scan_number s of
               Some r \<Rightarrow> Inr r
             | None \<Rightarrow>
                 if startswith s ''NaN'' then Inr (JFloat ''NaN'', drop 3 s)
                 else if startswith s ''Infinity'' then Inr (JFloat ''Infinity'', drop 8 s)
                 else if startswith s ''-Infinity'' then Inr (JFloat ''-Infinity'', drop 9 s)
                 else Inl SyntaxError))"
| "parse_items 0 acc s = Inl OutOfFuel"
| "parse_items (Suc f) acc s =
     (case parse_value f s of
        Inl e \<Rightarrow> Inl e
      | Inr (v, r) \<Rightarrow>
          (case skip_ws r of
             [] \<Rightarrow> Inl SyntaxError
           | d # r2 \<Rightarrow>
               if d = CHR '']'' then Inr (JArr (acc @ [v]), r2)
               else if d = CHR '','' then parse_items f (acc @ [v]) (skip_ws r2)
               else Inl SyntaxError))"
| "parse_members 0 acc s = Inl OutOfFuel"
| "parse_members (Suc f) acc s =
     (case s of
        [] \<Rightarrow> Inl SyntaxError
      | q # cs \<Rightarrow>
          if q \<noteq> dquote then Inl SyntaxError
          else
            (case scanstring cs of
               None \<Rightarrow> Inl SyntaxError
             | Some (key, r) \<Rightarrow>
                 (case skip_ws r of
                    [] \<Rightarrow> Inl SyntaxError
                  | col # r2 \<Rightarrow>
                      if col \<noteq> CHR '':'' then Inl SyntaxError
                      else
                        (case parse_value f (skip_ws r2) of
                           Inl e \<Rightarrow> Inl e
                         | Inr (v, r3) \<Rightarrow>
                             (case skip_ws r3 of
                                [] \<Rightarrow> Inl SyntaxError
                              | d # r4 \<Rightarrow>
                                  if d = CHR ''}'' then Inr (JObj (dict_set acc key v), r4)
                                  else if d = CHR '','' then
                                    parse_members f (dict_set acc key v) (skip_ws r4)
                                  else Inl SyntaxError)))))"

definition json_parse :: "string \<Rightarrow> parse_error + json" where
  "json_parse s =
     (case parse_value (2 * length s + 2) (skip_ws s) of
        Inl e \<Rightarrow> Inl e
      | Inr (v, r) \<Rightarrow> if skip_ws r = [] then Inr v else Inl SyntaxError)"

definition json_loads :: "string \<Rightarrow> json option" where
  "json_loads s = (case json_parse s of Inr v \<Rightarrow> Some v | Inl e \<Rightarrow> None)"

definition digit_char :: "nat \<Rightarrow> char" where
  "digit_char n = (if n < 10 then char_of (48 + n) else char_of (87 + n))"

function str_nat :: "int \<Rightarrow> string" where
  "str_nat n =
     (if n < 10 then [digit_char (nat n)] else str_nat (n div 10) @ [digit_char (nat (n mod 10))])"
  by pat_completeness auto
termination
  by (relation "measure nat") auto

definition str_int :: "int \<Rightarrow> string" where
  "str_int i = (if i < 0 then ''-'' @ str_nat (- i) else str_nat i)"

definition escape_char :: "char \<Rightarrow> string" where
  "escape_char c =
     (if c = dquote then [backslash, dquote]
      else if c = backslash then [backslash, backslash]
      else if c = CHR 0x0A then [backslash, CHR ''n'']
      else if c = CHR 0x0D then [backslash, CHR ''r'']
      else if c = CHR 0x09 then [backslash, CHR ''t'']
      else if c = CHR 0x08 then [backslash, CHR ''b'']
      else if c = CHR 0x0C then [backslash, CHR ''f'']
      else if (of_char c :: nat) < 32 then
        [backslash, CHR ''u'', CHR ''0'', CHR ''0'',
         digit_char ((of_char c :: nat) div 16), digit_char ((of_char c :: nat) mod 16)]
      else [c])"

definition encode_string :: "string \<Rightarrow> string" where
  "encode_string s = dquote # concat (map escape_char s) @ [dquote]"

fun join :: "string \<Rightarrow> string list \<Rightarrow> string" where
  "join sep [] = []"
| "join sep [x] = x"
| "join sep (x # y # ys) = x @ sep @ join sep (y # ys)"

fun json_dumps :: "json \<Rightarrow> string" where
  "json_dumps JNull = ''null''"
| "json_dumps (JBool b) = (if b then ''true'' else ''false'')"
| "json_dumps (JInt i) = str_int i"
| "json_dumps (JFloat s) = s"
| "json_dumps (JStr s) = encode_string s"
| "json_dumps (JArr xs) = ''['' @ join '', '' (map json_dumps xs) @ '']''"
| "json_dumps (JObj d) =
     ''{'' @ join '', '' (map (\<lambda>kv. encode_string (fst kv) @ '': '' @ json_dumps (snd kv)) d) @ ''}''"

fun hex_digits :: "nat \<Rightarrow> nat \<Rightarrow> string" where
  "hex_digits 0 n = []"
| "hex_digits (Suc k) n = hex_digits k (n div 16) @ [digit_char (n mod 16)]"

definition stdlib :: py_lib where
  "stdlib = \<lparr>loads = json_loads, dumps = json_dumps, uuid_hex = hex_digits 32\<rparr>"

section \<open>Fix rule engine\<close>

text \<open>
  \<^verbatim>\<open>ToolFixEngine\<close>. A rule is a dict with the keys \<^verbatim>\<open>name\<close>, \<^verbatim>\<open>parameter\<close>, \<^verbatim>\<open>condition\<close>,
  \<^verbatim>\<open>action\<close> and the optional keys \<^verbatim>\<open>fallback_value\<close>, \<^verbatim>\<open>default_value\<close>, \<^verbatim>\<open>valid_values\<close>;
  the fields carry the prefix \<open>fix_\<close>. The configuration holds the rule lists per tool
  name and the settings the modelled code reads. \<open>default_config\<close> is
  \<^verbatim>\<open>_get_default_config\<close>. Conditions and actions stay strings, as in the code: an unknown
  condition is false, an unknown action reports success.

  \<^verbatim>\<open>_apply_single_fix\<close> returns \<^verbatim>\<open>False\<close>, \<^verbatim>\<open>True\<close> or a pair \<^verbatim>\<open>('write', True)\<close>
  (\<open>fix_result\<close>) and mutates the dict it is given; the model returns the dict. An
  exception inside its \<^verbatim>\<open>try\<close> block is caught there: \<open>on_exception\<close>. In
  \<^verbatim>\<open>_fix_malformed_json\<close>, \<^verbatim>\<open>re.sub(r'""([^"]*?)""', r'"\1"', fixed)\<close> rewrites the leftmost
  non-overlapping occurrences of two quotes, a quote-free text and two quotes:
  \<open>sub_doubled\<close>. \<^verbatim>\<open>apply_fixes\<close> raises \<^verbatim>\<open>AttributeError\<close> when rules exist for the tool
  and the arguments are not a dict (\<^verbatim>\<open>copy\<close> or \<^verbatim>\<open>get\<close> is missing).
\<close>

record fix_rule =
  fix_name :: string
  fix_parameter :: string
  fix_condition :: string
  fix_action :: string
  fix_fallback_value :: "json option"
  fix_default_value :: "json option"
  fix_valid_values :: "json list option"

record config =
  cfg_tools :: "(string \<times> fix_rule list) list"
  cfg_case_sensitive_tools :: "json option"
  cfg_max_buffer_size :: "int option"

definition mk_fix :: "string \<Rightarrow> string \<Rightarrow> string \<Rightarrow> string \<Rightarrow> fix_rule" where
  "mk_fix n p c a =
     \<lparr>fix_name = n, fix_parameter = p, fix_condition = c, fix_action = a,
      fix_fallback_value = None, fix_default_value = None, fix_valid_values = None\<rparr>"

definition default_tools :: "(string \<times> fix_rule list) list" where
  "default_tools =
     [(''todowrite'',
        [(mk_fix ''todos_string_to_array'' ''todos'' ''is_string'' ''parse_json_array'')
           \<lparr>fix_fallback_value := Some (JArr [])\<rparr>]),
      (''bash'',
        [(mk_fix ''missing_description'' ''description'' ''missing_or_empty'' ''set_default'')
           \<lparr>fix_default_value := Some (JStr ''Execute the given shell command'')\<rparr>]),
      (''read'',
        [mk_fix ''remove_content_parameter'' ''content'' ''exists'' ''remove_parameter''])]"

definition default_config :: config where
  "default_config =
     \<lparr>cfg_tools = default_tools,
      cfg_case_sensitive_tools = Some (JBool False),
      cfg_max_buffer_size = Some 1048576\<rparr>"

definition case_sensitive :: "config \<Rightarrow> bool" where
  "case_sensitive cfg =
     (case cfg_case_sensitive_tools cfg of None \<Rightarrow> False | Some v \<Rightarrow> truthy v)"

definition max_buffer_size :: "config \<Rightarrow> int" where
  "max_buffer_size cfg = (case cfg_max_buffer_size cfg of None \<Rightarrow> 1048576 | Some n \<Rightarrow> n)"

definition check_condition :: "(string \<times> json) list \<Rightarrow> string \<Rightarrow> string \<Rightarrow> fix_rule \<Rightarrow> bool" where
  "check_condition args_obj param condition fx =
     (let value = (case map_of args_obj param of None \<Rightarrow> JNull | Some v \<Rightarrow> v)
      in if condition = ''is_string'' then (case value of JStr s \<Rightarrow> True | _ \<Rightarrow> False)
         else if condition = ''missing_or_empty'' then \<not> truthy value
         else if condition = ''missing'' then map_of args_obj param = None
         else if condition = ''exists'' then map_of args_obj param \<noteq> None
         else if condition = ''invalid_enum'' then
           (let valid_values = (case fix_valid_values fx of None \<Rightarrow> [] | Some vs \<Rightarrow> vs)
            in \<not> list_ex (py_eq value) valid_values)
         else False)"

definition match_doubled :: "string \<Rightarrow> (string \<times> string) option" where
  "match_doubled s =
     (if startswith s [dquote, dquote] then
        (let r = drop 2 s;
             x = takeWhile (\<lambda>c. c \<noteq> dquote) r;
             d = dropWhile (\<lambda>c. c \<noteq> dquote) r
         in if startswith d [dquote, dquote] then Some (x, drop 2 d) else None)
      else None)"

lemma match_doubled_shorter: "match_doubled s = Some (x, rest) \<Longrightarrow> length rest < length s"
proof -
  assume a: "match_doubled s = Some (x, rest)"
  let ?r = "drop 2 s"
  from a have s: "startswith s [dquote, dquote]"
    and rest: "rest = drop 2 (dropWhile (\<lambda>c. c \<noteq> dquote) ?r)"
    by (auto simp add: match_doubled_def Let_def split: if_splits)
  have "length rest \<le> length (dropWhile (\<lambda>c. c \<noteq> dquote) ?r)" using rest by simp
  also have "\<dots> \<le> length ?r" by (rule length_dropWhile_le)
  also have "\<dots> < length s" using s by (cases s) (auto simp add: startswith_def)
  finally show ?thesis .
qed

function sub_doubled :: "string \<Rightarrow> string" where
  "sub_doubled [] = []"
| "sub_doubled (c # cs) =
     (case match_doubled (c # cs) of
        Some (x, rest) \<Rightarrow> dquote # x @ dquote # sub_doubled rest
      | None \<Rightarrow> c # sub_doubled cs)"
  by pat_completeness auto
termination
  by (relation "measure length") (auto dest: match_doubled_shorter)

definition fix_malformed_json :: "string \<Rightarrow> string" where
  "fix_malformed_json json_str =
     (if json_str = [] then json_str
      else
        (let fixed = map (\<lambda>c. if c = CHR 0x27 then dquote else c) json_str
         in sub_doubled fixed))"

datatype fix_result = Plain bool | Conversion string bool

definition on_exception :: "(string \<times> json) list \<Rightarrow> string \<Rightarrow> fix_rule \<Rightarrow> fix_result \<times> (string \<times> json) list" where
  "on_exception args_obj param fx =
     (case fix_fallback_value fx of
        Some fb \<Rightarrow> (Plain True, dict_set args_obj param fb)
      | None \<Rightarrow> (Plain False, args_obj))"

definition apply_single_fix :: "py_lib \<Rightarrow> (string \<times> json) list \<Rightarrow> fix_rule \<Rightarrow> fix_result \<times> (string \<times> json) list" where
  "apply_single_fix L args_obj fx =
     (let param = fix_parameter fx; condition = fix_condition fx; action = fix_action fx
      in if \<not> check_condition args_obj param condition fx then (Plain False, args_obj)
         else if action = ''parse_json_array'' then
           (case map_of args_obj param of
              Some (JStr s) \<Rightarrow>
                (case loads L s of
                   Some v \<Rightarrow> (Plain True, dict_set args_obj param v)
                 | None \<Rightarrow>
                     (case loads L (fix_malformed_json s) of
                        Some v \<Rightarrow> (Plain True, dict_set args_obj param v)
                      | None \<Rightarrow> on_exception args_obj param fx))
            | _ \<Rightarrow> (Plain True, args_obj))
         else if action = ''set_default'' then
           (case fix_default_value fx of
              Some dv \<Rightarrow> (Plain True, dict_set args_obj param dv)
            | None \<Rightarrow> on_exception args_obj param fx)
         else if action = ''parse_json_object'' then
           (case map_of args_obj param of
              Some (JStr s) \<Rightarrow>
                (case loads L s of
                   Some v \<Rightarrow> (Plain True, dict_set args_obj param v)
                 | None \<Rightarrow> on_exception args_obj param fx)
            | _ \<Rightarrow> (Plain True, args_obj))
         else if action = ''convert_string_to_boolean'' then
           (case map_of args_obj param of
              Some (JStr s) \<Rightarrow>
                (let value = strip (lower s)
                 in (Plain True,
                     dict_set args_obj param (JBool (value \<in> set [''true'', ''1'', ''yes'', ''on'']))))
            | _ \<Rightarrow> (Plain True, args_obj))
         else if action = ''remove_parameter'' then
           (if map_of args_obj param \<noteq> None then (Plain True, dict_del args_obj param)
            else (Plain True, args_obj))
         else if action = ''convert_tool_to_write'' then
           (if map_of args_obj ''filePath'' \<noteq> None \<and> map_of args_obj ''content'' \<noteq> None
            then (Conversion ''write'' True, args_obj)
            else (Plain False, args_obj))
         else (Plain True, args_obj))"

fun apply_fix_list :: "py_lib \<Rightarrow> fix_rule list \<Rightarrow> string \<Rightarrow> (string \<times> json) list \<Rightarrow> string \<times> (string \<times> json) list" where
  "apply_fix_list L [] final_tool_name result = (final_tool_name, result)"
| "apply_fix_list L (fx # fixes) final_tool_name result =
     (case apply_single_fix L result fx of
        (Conversion new_name applied, result') \<Rightarrow> apply_fix_list L fixes new_name result'
      | (Plain applied, result') \<Rightarrow> apply_fix_list L fixes final_tool_name result')"

definition apply_fixes :: "py_lib \<Rightarrow> config \<Rightarrow> string \<Rightarrow> json \<Rightarrow> py_error + (string \<times> json)" where
  "apply_fixes L cfg tool_name0 args_obj =
     (let tool_name = (if \<not> case_sensitive cfg then lower tool_name0 else tool_name0);
          fixes = (case map_of (cfg_tools cfg) tool_name of None \<Rightarrow> [] | Some fs \<Rightarrow> fs)
      in if fixes = [] then Inr (tool_name, args_obj)
         else
           (case args_obj of
              JObj d \<Rightarrow>
                (let (final_tool_name, result) = apply_fix_list L fixes tool_name d
                 in Inr (final_tool_name, JObj result))
            | _ \<Rightarrow> Inl AttributeError))"

text \<open>
  Modelled from the spec: the rule list of the read tool in \<^verbatim>\<open>tool_fixes.yaml\<close>, the
  configuration file bundled with the package, which is not among the sources.
\<close>

definition yaml_read_fixes :: "fix_rule list" where
  "yaml_read_fixes =
     [mk_fix ''convert_read_with_content_to_write'' ''content'' ''exists'' ''convert_tool_to_write'']"

section \<open>JSON repair engine\<close>

text \<open>
  \<^verbatim>\<open>try_fix_incomplete_json\<close> returns the empty text for blank input, the completed text
  when it parses, and \<^verbatim>\<open>None\<close> otherwise. \<^verbatim>\<open>']' * n\<close> is empty for negative \<open>n\<close>, as the
  truncating subtraction of \<^typ>\<open>nat\<close> is.
\<close>

definition try_fix_incomplete_json :: "py_lib \<Rightarrow> string \<Rightarrow> string option" where
  "try_fix_incomplete_json L json_str0 =
     (if strip json_str0 = [] then Some []
      else
        (let json_str = strip json_str0;
             open_braces = count_list json_str (CHR ''{'');
             close_braces = count_list json_str (CHR ''}'');
             open_brackets = count_list json_str (CHR ''['');
             close_brackets = count_list json_str (CHR '']'');
             result = json_str
               @ replicate (open_brackets - close_brackets) (CHR '']'')
               @ replicate (open_braces - close_braces) (CHR ''}'')
         in case loads L result of
              Some v \<Rightarrow> Some result
            | None \<Rightarrow> None))"

text \<open>
  The first recovery attempt is \<^verbatim>\<open>re.sub(r',\s*"[^"]+"\s*(?!:)[^}]*\}$', '}', s)\<close>, applied
  to stripped text. A match starts at a comma and, the text having no trailing line
  break, ends at the end of the text, so at most the leftmost comma whose tail matches
  is replaced. \<open>dup_key_tail\<close> is the match of the pattern against a whole tail: after
  the comma and whitespace comes a quoted, non-empty, quote-free key; the text \<open>r\<close> after
  the key must end with the only \<^verbatim>\<open>}\<close> it contains; the lookahead \<^verbatim>\<open>(?!:)\<close> is tried after
  each amount of whitespace that \<^verbatim>\<open>\s*\<close> can take, which succeeds exactly when \<open>r\<close> does
  not begin with a colon.
\<close>

definition dup_key_tail :: "string \<Rightarrow> bool" where
  "dup_key_tail s =
     (case s of
        [] \<Rightarrow> False
      | c # r0 \<Rightarrow>
          c = CHR '','' \<and>
          (case dropWhile is_space r0 of
             [] \<Rightarrow> False
           | q # r2 \<Rightarrow>
               q = dquote \<and>
               (let key = takeWhile (\<lambda>x. x \<noteq> dquote) r2;
                    r3 = dropWhile (\<lambda>x. x \<noteq> dquote) r2
                in key \<noteq> [] \<and> r3 \<noteq> [] \<and>
                   (let r = tl r3
                    in r \<noteq> [] \<and> hd r \<noteq> CHR '':'' \<and> last r = CHR ''}'' \<and>
                       CHR ''}'' \<notin> set (butlast r)))))"

fun strip_malformed_trailing_duplicate_key :: "string \<Rightarrow> string" where
  "strip_malformed_trailing_duplicate_key [] = []"
| "strip_malformed_trailing_duplicate_key (c # cs) =
     (if dup_key_tail (c # cs) then ''}''
      else c # strip_malformed_trailing_duplicate_key cs)"

definition rstrip_commas :: "string \<Rightarrow> string" where
  "rstrip_commas s = rev (dropWhile (\<lambda>c. c = CHR '','') (rev s))"

definition recovery_attempts :: "(string \<Rightarrow> string) list" where
  "recovery_attempts =
     [strip_malformed_trailing_duplicate_key,
      (\<lambda>s. rstrip_commas s @ ''}''),
      (\<lambda>s. s @ ''}''),
      (\<lambda>s. if \<not> startswith s ''{'' then ''{'' @ s @ ''}'' else s)]"

section \<open>Tool calls and buffers\<close>

text \<open>
  A tool-call entry of a delta is a dict with the optional keys \<^verbatim>\<open>index\<close>, \<^verbatim>\<open>id\<close>,
  \<^verbatim>\<open>function\<close> (a dict with the optional keys \<^verbatim>\<open>name\<close> and \<^verbatim>\<open>arguments\<close>) and the mark
  \<^verbatim>\<open>_suppress\<close> that the processor sets. \<open>tool_buffer\<close> is \<^verbatim>\<open>ToolBuffer\<close> without its
  request identifier and its two timestamps, which play no part in the event
  processing. Fields carry a prefix, the source's names being needed for variables.
\<close>

record func =
  fn_name :: "string option"
  fn_arguments :: "string option"

record tool_call =
  tc_index :: "int option"
  tc_id :: "string option"
  tc_function :: "func option"
  tc_suppress :: bool

record tool_buffer =
  buf_call_id :: string
  buf_content :: string
  buf_tool_name :: string

text \<open>
  \<^verbatim>\<open>try_json_recovery\<close>: the loop over \<^verbatim>\<open>recovery_attempts\<close>. Any exception inside the
  \<^verbatim>\<open>try\<close> block (the text does not parse, \<^verbatim>\<open>apply_fixes\<close> raises, the tool has no
  \<^verbatim>\<open>function\<close> entry to assign to) moves on to the next attempt. The result is the
  returned flag and the tool as the function leaves it.
\<close>

fun try_attempts ::
  "py_lib \<Rightarrow> config \<Rightarrow> string \<Rightarrow> tool_call \<Rightarrow> string \<Rightarrow> (string \<Rightarrow> string) list \<Rightarrow> bool \<times> tool_call"
  where
  "try_attempts L cfg malformed_json tool tool_name [] = (False, tool)"
| "try_attempts L cfg malformed_json tool tool_name (fix_func # rest) =
     (let fixed_json = fix_func (strip malformed_json)
      in case loads L fixed_json of
           None \<Rightarrow> try_attempts L cfg malformed_json tool tool_name rest
         | Some args_obj \<Rightarrow>
             (case apply_fixes L cfg tool_name args_obj of
                Inl e \<Rightarrow> try_attempts L cfg malformed_json tool tool_name rest
              | Inr (final_tool_name, fixed_obj) \<Rightarrow>
                  (case tc_function tool of
                     None \<Rightarrow> try_attempts L cfg malformed_json tool tool_name rest
                   | Some fn \<Rightarrow>
                       (True,
                        tool\<lparr>tc_function :=
                          Some (fn\<lparr>fn_name := Some final_tool_name,
                                    fn_arguments := Some (dumps L fixed_obj)\<rparr>)\<rparr>))))"

definition try_json_recovery ::
  "py_lib \<Rightarrow> config \<Rightarrow> string \<Rightarrow> tool_call \<Rightarrow> string \<Rightarrow> bool \<times> tool_call" where
  "try_json_recovery L cfg malformed_json tool tool_name =
     try_attempts L cfg malformed_json tool tool_name recovery_attempts"

text \<open>
  \<^verbatim>\<open>process_complete_buffer\<close> mutates the tool it is given; the model returns it. A
  \<^verbatim>\<open>JSONDecodeError\<close> leads to recovery, any other exception is logged only.
\<close>

definition process_complete_buffer :: "py_lib \<Rightarrow> config \<Rightarrow> tool_buffer \<Rightarrow> tool_call \<Rightarrow> tool_call" where
  "process_complete_buffer L cfg buffer tool =
     (let full_args_str = buf_content buffer; tool_name = buf_tool_name buffer
      in case loads L full_args_str of
           Some args_obj \<Rightarrow>
             (case apply_fixes L cfg tool_name args_obj of
                Inl e \<Rightarrow> tool
              | Inr (final_tool_name, fixed_obj) \<Rightarrow>
                  (case tc_function tool of
                     None \<Rightarrow> tool
                   | Some fn \<Rightarrow>
                       (let fn1 = (if final_tool_name \<noteq> tool_name
                                   then fn\<lparr>fn_name := Some final_tool_name\<rparr> else fn)
                        in tool\<lparr>tc_function :=
                             Some (fn1\<lparr>fn_arguments := Some (dumps L fixed_obj)\<rparr>)\<rparr>)))
         | None \<Rightarrow> snd (try_json_recovery L cfg full_args_str tool tool_name))"

subsection \<open>Heuristic recovery as the specification words it\<close>

text \<open>
  The candidate texts of the four transforms, in order. With \<open>wrap = False\<close> the fourth
  prepends an opening brace to a text that does not start with one (the
  specification's wording); with \<open>wrap = True\<close> it also appends a closing brace.
  \<open>spec_recovery\<close> is the specification's rule: the first candidate that parses wins.
  \<open>adopted\<close> is what a candidate yields in the code: it must parse and pass the fix
  engine without an exception.
\<close>

definition candidates :: "bool \<Rightarrow> string \<Rightarrow> string list" where
  "candidates wrap s =
     [strip_malformed_trailing_duplicate_key s,
      rstrip_commas s @ ''}'',
      s @ ''}'',
      (if startswith s ''{'' then s else if wrap then ''{'' @ s @ ''}'' else ''{'' @ s)]"

definition spec_recovery :: "py_lib \<Rightarrow> string \<Rightarrow> string option" where
  "spec_recovery L malformed_json =
     List.find (\<lambda>c. loads L c \<noteq> None) (candidates False (strip malformed_json))"

definition adopted :: "py_lib \<Rightarrow> config \<Rightarrow> string \<Rightarrow> string \<Rightarrow> (string \<times> string) option" where
  "adopted L cfg tool_name c =
     (case loads L c of
        None \<Rightarrow> None
      | Some v \<Rightarrow>
          (case apply_fixes L cfg tool_name v of
             Inl e \<Rightarrow> None
           | Inr (n, a) \<Rightarrow> Some (n, dumps L a)))"

fun first_adopted :: "py_lib \<Rightarrow> config \<Rightarrow> string \<Rightarrow> string list \<Rightarrow> (string \<times> string) option" where
  "first_adopted L cfg tool_name [] = None"
| "first_adopted L cfg tool_name (c # cs) =
     (case adopted L cfg tool_name c of
        Some r \<Rightarrow> Some r
      | None \<Rightarrow> first_adopted L cfg tool_name cs)"

definition set_call :: "tool_call \<Rightarrow> func \<Rightarrow> string \<Rightarrow> string \<Rightarrow> tool_call" where
  "set_call tool fn n a =
     tool\<lparr>tc_function := Some (fn\<lparr>fn_name := Some n, fn_arguments := Some a\<rparr>)\<rparr>"

section \<open>Tool identity inference\<close>

fun contains :: "string \<Rightarrow> string \<Rightarrow> bool" where
  "contains [] sub = (sub = [])"
| "contains (c # cs) sub = (startswith (c # cs) sub \<or> contains cs sub)"

definition infer_tool_name_from_content :: "string \<Rightarrow> string" where
  \<open>infer_tool_name_from_content text =
     (if text = [] then []
      else if contains text ''"todos"'' then ''todowrite''
      else if contains text ''"command"'' \<and> \<not> contains text ''"edits"'' then ''bash''
      else if contains text ''"file_path"'' \<and> contains text ''"edits"'' then ''multiedit''
      else if contains text ''"filePath"'' \<and> contains text ''"oldString"'' \<and>
              contains text ''"newString"'' then ''edit''
      else if contains text ''"file_path"'' \<and> contains text ''"old_string"'' \<and>
              contains text ''"new_string"'' then ''edit''
      else if contains text ''"pattern"'' \<and> contains text ''"output_mode"'' then ''grep''
      else if contains text ''"pattern"'' then ''glob''
      else if contains text ''"url"'' \<and> contains text ''"prompt"'' then ''webfetch''
      else if contains text ''"query"'' then ''websearch''
      else if contains text ''"content"'' \<and>
              (contains text ''"file_path"'' \<or> contains text ''"filePath"'') then ''write''
      else if contains text ''"file_path"'' \<or> contains text ''"filePath"'' then ''read''
      else if contains text ''"description"'' \<and> contains text ''"prompt"'' \<and>
              contains text ''"subagent_type"'' then ''task''
      else if contains text ''"notebook_path"'' \<and> contains text ''"new_source"'' then ''notebookedit''
      else if contains text ''"path"'' then ''list''
      else [])\<close>

section \<open>Stream event processor\<close>

text \<open>
  An event follows the wire shape: a dict with an optional list \<^verbatim>\<open>choices\<close>; a choice
  with an optional \<^verbatim>\<open>delta\<close> and \<^verbatim>\<open>finish_reason\<close>; a delta with an optional \<^verbatim>\<open>content\<close>
  text and an optional list \<^verbatim>\<open>tool_calls\<close>. The remaining keys of each dict are kept in
  a field of their own. \<open>request_state\<close> is \<^verbatim>\<open>RequestState\<close> without its identifier and
  creation time; \<^verbatim>\<open>tool_buffers\<close> is a dict in insertion order.
\<close>

record delta =
  d_content :: "string option"
  d_tool_calls :: "tool_call list option"
  d_other :: "(string \<times> json) list"

record choice =
  ch_delta :: "delta option"
  ch_finish_reason :: "string option"
  ch_other :: "(string \<times> json) list"

record event =
  ev_choices :: "choice list option"
  ev_other :: "(string \<times> json) list"

record request_state =
  rs_tool_buffers :: "(string \<times> tool_buffer) list"
  rs_content_buffer :: string
  rs_sent_tool_signatures :: "string list"

definition main_buffer_key :: string where
  "main_buffer_key = ''main_tool_call''"

definition new_buffer :: "string \<Rightarrow> string \<Rightarrow> tool_buffer" where
  "new_buffer cid nm = \<lparr>buf_call_id = cid, buf_content = [], buf_tool_name = nm\<rparr>"

definition update_content :: "tool_buffer \<Rightarrow> string \<Rightarrow> tool_buffer" where
  "update_content buffer new_content = buffer\<lparr>buf_content := buf_content buffer @ new_content\<rparr>"

text \<open>\<^verbatim>\<open>ToolBuffer.size\<close>: the length of the UTF-8 encoding; a code point from 128 to 255 takes two bytes.\<close>

definition buffer_size :: "tool_buffer \<Rightarrow> int" where
  "buffer_size buffer =
     sum_list (map (\<lambda>c. if (of_char c :: nat) < 128 then 1 else 2) (buf_content buffer))"

definition get_fixed_arguments :: "py_lib \<Rightarrow> config \<Rightarrow> tool_buffer \<Rightarrow> string \<times> string" where
  "get_fixed_arguments L cfg buffer =
     (case loads L (buf_content buffer) of
        None \<Rightarrow> (buf_tool_name buffer, [])
      | Some args_obj \<Rightarrow>
          (case apply_fixes L cfg (buf_tool_name buffer) args_obj of
             Inl e \<Rightarrow> (buf_tool_name buffer, [])
           | Inr (final_tool_name, fixed_obj) \<Rightarrow> (final_tool_name, dumps L fixed_obj)))"

text \<open>The call that the processor synthesizes, with the \<open>n\<close>-th identifier drawn.\<close>

definition fixed_call_id :: "py_lib \<Rightarrow> nat \<Rightarrow> string" where
  "fixed_call_id L n = ''call_'' @ take 24 (uuid_hex L n)"

definition synthesized_call :: "py_lib \<Rightarrow> nat \<Rightarrow> string \<Rightarrow> string \<Rightarrow> tool_call" where
  "synthesized_call L n nm args =
     \<lparr>tc_index = Some 0, tc_id = Some (fixed_call_id L n),
      tc_function = Some \<lparr>fn_name = Some nm, fn_arguments = Some args\<rparr>,
      tc_suppress = False\<rparr>"

subsection \<open>Classification of the entries of a delta\<close>

definition tool_id :: "tool_call \<Rightarrow> string" where
  "tool_id tool = (case tc_id tool of None \<Rightarrow> [] | Some i \<Rightarrow> i)"

definition tool_func_name :: "tool_call \<Rightarrow> string" where
  "tool_func_name tool =
     (case tc_function tool of
        None \<Rightarrow> []
      | Some fn \<Rightarrow> (case fn_name fn of None \<Rightarrow> [] | Some n \<Rightarrow> n))"

definition tool_arguments :: "tool_call \<Rightarrow> string option" where
  "tool_arguments tool = (case tc_function tool of None \<Rightarrow> None | Some fn \<Rightarrow> fn_arguments fn)"

datatype entry_kind = NamedCall | EmptyHeader | Fragment | Ignored

definition classify :: "tool_call \<Rightarrow> entry_kind" where
  "classify tool =
     (let call_id = tool_id tool; tool_name = tool_func_name tool;
          args = (case tool_arguments tool of None \<Rightarrow> [] | Some a \<Rightarrow> a)
      in if call_id \<noteq> [] \<and> tool_name \<noteq> [] \<and> strip args \<noteq> [] then NamedCall
         else if call_id \<noteq> [] \<and> tool_name \<noteq> [] \<and> \<not> (strip args \<noteq> []) then EmptyHeader
         else if tool_arguments tool \<noteq> None then Fragment
         else Ignored)"

definition mark_headers :: "tool_call list \<Rightarrow> tool_call list" where
  "mark_headers tools =
     map (\<lambda>tool. if classify tool = EmptyHeader then tool\<lparr>tc_suppress := True\<rparr> else tool) tools"

definition fragments_of :: "tool_call list \<Rightarrow> (int \<times> string) list" where
  "fragments_of tools =
     map (\<lambda>tool. (case tc_index tool of None \<Rightarrow> 0 | Some i \<Rightarrow> i,
                   case tool_arguments tool of None \<Rightarrow> [] | Some a \<Rightarrow> a))
       (filter (\<lambda>tool. classify tool = Fragment) tools)"

definition named_positions :: "tool_call list \<Rightarrow> nat list" where
  "named_positions tools = filter (\<lambda>i. classify (tools ! i) = NamedCall) [0..<length tools]"

subsection \<open>Fragments\<close>

text \<open>
  The block \<^verbatim>\<open>if fragments_in_event:\<close>. It returns the buffers, the list that
  \<^verbatim>\<open>delta["tool_calls"]\<close> is rebound to (every branch rebinds it), and the number of
  identifiers drawn so far.
\<close>

definition process_fragments ::
  "py_lib \<Rightarrow> config \<Rightarrow> (int \<times> string) list \<Rightarrow> (string \<times> tool_buffer) list \<Rightarrow> nat \<Rightarrow>
     (string \<times> tool_buffer) list \<times> tool_call list \<times> nat" where
  "process_fragments L cfg fragments_in_event buffers draws =
     (let buffers1 =
            (if map_of buffers main_buffer_key = None
             then dict_set buffers main_buffer_key (new_buffer main_buffer_key [])
             else buffers);
          buffer0 = (case map_of buffers1 main_buffer_key of
                       None \<Rightarrow> new_buffer main_buffer_key []
                     | Some b \<Rightarrow> b);
          buffer1 = foldl update_content buffer0 (map snd (sort_key fst fragments_in_event))
      in if buffer_size buffer1 > max_buffer_size cfg
         then (dict_del buffers1 main_buffer_key, [], draws)
         else
           (let buffer2 =
                  (if buf_tool_name buffer1 = [] \<and> buf_content buffer1 \<noteq> []
                   then buffer1\<lparr>buf_tool_name := infer_tool_name_from_content (buf_content buffer1)\<rparr>
                   else buffer1);
                buffers2 = dict_set buffers1 main_buffer_key buffer2
            in if buf_content buffer2 \<noteq> [] \<and> is_json_complete (buf_content buffer2)
               then
                 (let (final_tool_name, fixed_args) = get_fixed_arguments L cfg buffer2
                  in if fixed_args \<noteq> [] \<and> final_tool_name \<noteq> []
                     then (dict_del buffers2 main_buffer_key,
                           [synthesized_call L draws final_tool_name fixed_args], Suc draws)
                     else (buffers2, [], draws))
               else (buffers2, [], draws)))"

subsection \<open>Named calls\<close>

text \<open>
  The local state of the loop \<^verbatim>\<open>for tool in named_tool_calls\<close>. \<open>lc_tools\<close> is the list
  object that \<^verbatim>\<open>delta["tool_calls"]\<close> held when the entries were classified; the named
  entries are elements of it, mutated in place, and are addressed by position.
  \<open>lc_rebound\<close> is the list that \<^verbatim>\<open>delta["tool_calls"]\<close> was rebound to by the fragment
  block, if it was. \<^verbatim>\<open>delta["tool_calls"].append\<close> adds to whichever list is current.
  A \<^verbatim>\<open>del\<close> of a missing key raises \<^verbatim>\<open>KeyError\<close>: \<open>Raise\<close> carries the state reached.
\<close>

record locals =
  lc_tools :: "tool_call list"
  lc_rebound :: "tool_call list option"
  lc_buffers :: "(string \<times> tool_buffer) list"
  lc_draws :: nat

datatype 'a outcome = Ok 'a | Raise py_error 'a

definition append_call :: "locals \<Rightarrow> tool_call \<Rightarrow> locals" where
  "append_call lc call =
     (case lc_rebound lc of
        None \<Rightarrow> lc\<lparr>lc_tools := lc_tools lc @ [call]\<rparr>
      | Some l \<Rightarrow> lc\<lparr>lc_rebound := Some (l @ [call])\<rparr>)"

definition opens_json :: "string \<Rightarrow> bool" where
  "opens_json text = (text \<noteq> [] \<and> (startswith (lstrip text) ''{'' \<or> startswith (lstrip text) ''[''))"

definition named_step :: "py_lib \<Rightarrow> config \<Rightarrow> nat \<Rightarrow> locals \<Rightarrow> locals outcome" where
  "named_step L cfg i lc =
     (let tool = lc_tools lc ! i;
          call_id = tool_id tool;
          tool_name = tool_func_name tool;
          buffers1 =
            (if map_of (lc_buffers lc) call_id = None
             then dict_set (lc_buffers lc) call_id (new_buffer call_id tool_name)
             else lc_buffers lc);
          buffer0 = (case map_of buffers1 call_id of
                       None \<Rightarrow> new_buffer call_id tool_name
                     | Some b \<Rightarrow> b)
      in case tool_arguments tool of
           None \<Rightarrow> Ok (lc\<lparr>lc_buffers := buffers1\<rparr>)
         | Some frag \<Rightarrow>
             (let buffer = update_content buffer0 frag;
                  buffers2 = dict_set buffers1 call_id buffer
              in if buf_content buffer \<noteq> [] \<and> is_json_complete (buf_content buffer)
                 then
                   Ok (lc\<lparr>lc_tools := (lc_tools lc)[i := process_complete_buffer L cfg buffer tool],
                          lc_buffers := dict_del buffers2 call_id\<rparr>)
                 else if buf_content buffer \<noteq> []
                 then
                   (let buffers3 =
                          (if map_of buffers2 main_buffer_key = None
                           then dict_set buffers2 main_buffer_key (new_buffer main_buffer_key [])
                           else buffers2);
                        main0 = (case map_of buffers3 main_buffer_key of
                                   None \<Rightarrow> new_buffer main_buffer_key []
                                 | Some b \<Rightarrow> b);
                        main1 =
                          (if opens_json (buf_content main0)
                           then main0\<lparr>buf_content := buf_content main0 @ buf_content buffer\<rparr>
                           else main0\<lparr>buf_content := buf_content buffer @ buf_content main0\<rparr>);
                        main_buf =
                          (if buf_tool_name main1 = []
                           then main1\<lparr>buf_tool_name :=
                                  (if buf_tool_name buffer \<noteq> [] then buf_tool_name buffer
                                   else tool_name)\<rparr>
                           else main1);
                        buffers4 = dict_del (dict_set buffers3 main_buffer_key main_buf) call_id;
                        lc1 = lc\<lparr>lc_tools := (lc_tools lc)[i := tool\<lparr>tc_suppress := True\<rparr>],
                                 lc_buffers := buffers4\<rparr>
                    in if is_json_complete (buf_content main_buf)
                       then
                         (let (final_tool_name, fixed_args) = get_fixed_arguments L cfg main_buf
                          in if fixed_args \<noteq> [] \<and> final_tool_name \<noteq> []
                             then
                               (let lc2 = (append_call lc1
                                            (synthesized_call L (lc_draws lc) final_tool_name fixed_args))
                                            \<lparr>lc_draws := Suc (lc_draws lc)\<rparr>
                                in if map_of buffers4 main_buffer_key = None
                                   then Raise KeyError lc2
                                   else Ok (lc2\<lparr>lc_buffers := dict_del buffers4 main_buffer_key\<rparr>))
                             else Ok lc1)
                       else Ok lc1)
                 else Ok (lc\<lparr>lc_buffers := buffers2\<rparr>)))"

fun named_loop :: "py_lib \<Rightarrow> config \<Rightarrow> nat list \<Rightarrow> locals \<Rightarrow> locals outcome" where
  "named_loop L cfg [] lc = Ok lc"
| "named_loop L cfg (i # rest) lc =
     (case named_step L cfg i lc of
        Ok lc' \<Rightarrow> named_loop L cfg rest lc'
      | Raise e lc' \<Rightarrow> Raise e lc')"

subsection \<open>Flushing at the end of the tool calls\<close>

definition validate_json_syntax :: "py_lib \<Rightarrow> string \<Rightarrow> bool" where
  "validate_json_syntax L json_str = (loads L json_str \<noteq> None)"

definition flush_buffer :: "py_lib \<Rightarrow> config \<Rightarrow> string \<times> tool_buffer \<Rightarrow> (string \<times> tool_buffer) option" where
  "flush_buffer L cfg entry =
     (let call_id = fst entry; buffer = snd entry
      in if buf_content buffer = [] then None
         else
           (let dummy_tool =
                  \<lparr>tc_index = None, tc_id = Some call_id,
                   tc_function = Some \<lparr>fn_name = Some (buf_tool_name buffer),
                                        fn_arguments = Some (buf_content buffer)\<rparr>,
                   tc_suppress = False\<rparr>;
                fixed_tool = process_complete_buffer L cfg buffer dummy_tool;
                final_args = (case tool_arguments fixed_tool of None \<Rightarrow> [] | Some a \<Rightarrow> a)
            in if final_args \<noteq> [] \<and> validate_json_syntax L final_args
               then Some (call_id,
                      buffer\<lparr>buf_content := final_args, buf_tool_name := tool_func_name fixed_tool\<rparr>)
               else None))"

definition process_all_buffers :: "py_lib \<Rightarrow> config \<Rightarrow> (string \<times> tool_buffer) list \<Rightarrow> (string \<times> tool_buffer) list" where
  "process_all_buffers L cfg buffers = List.map_filter (flush_buffer L cfg) buffers"

subsection \<open>One event\<close>

text \<open>
  \<^verbatim>\<open>process_sse_event\<close>. The request state is looked up in the global registry: \<open>None\<close>
  when the request is not registered. The result is the returned event, the state and the
  number of identifiers drawn, or the exception raised with the state reached.
\<close>

datatype sse_result =
    Returned event "request_state option" nat
  | Raised py_error request_state nat

definition xml_phase :: "py_lib \<Rightarrow> config \<Rightarrow> delta \<Rightarrow> request_state \<Rightarrow> nat \<Rightarrow> delta \<times> request_state \<times> nat" where
  "xml_phase L cfg dl rs draws =
     (let text = (case d_content dl of None \<Rightarrow> [] | Some c \<Rightarrow> c)
      in if text \<noteq> [] then
           (let content_buffer = rs_content_buffer rs @ text
            in case detect_and_convert_xml_tool_call content_buffer of
                 Some (function_name, arguments) \<Rightarrow>
                   (let args_str = dumps L (JObj (map (\<lambda>kv. (fst kv, JStr (snd kv))) arguments))
                    in (dl\<lparr>d_tool_calls := Some [synthesized_call L draws function_name args_str],
                           d_content := Some []\<rparr>,
                        rs\<lparr>rs_content_buffer := []\<rparr>,
                        Suc draws))
               | None \<Rightarrow>
                   (if int (length content_buffer) > max_buffer_size cfg
                    then (dl, rs\<lparr>rs_content_buffer := []\<rparr>, draws)
                    else (dl, rs\<lparr>rs_content_buffer := content_buffer\<rparr>, draws)))
         else (dl, rs, draws))"

definition finish_phase :: "py_lib \<Rightarrow> config \<Rightarrow> string option \<Rightarrow> (string \<times> tool_buffer) list \<Rightarrow> (string \<times> tool_buffer) list" where
  "finish_phase L cfg finish_reason buffers =
     (if finish_reason = Some ''tool_calls'' then process_all_buffers L cfg buffers else buffers)"

definition visible_calls :: "locals \<Rightarrow> tool_call list" where
  "visible_calls lc =
     filter (\<lambda>tool. \<not> tc_suppress tool)
       (case lc_rebound lc of None \<Rightarrow> lc_tools lc | Some l \<Rightarrow> l)"

definition tool_calls_phase ::
  "py_lib \<Rightarrow> config \<Rightarrow> tool_call list \<Rightarrow> (string \<times> tool_buffer) list \<Rightarrow> nat \<Rightarrow> locals outcome" where
  "tool_calls_phase L cfg tools buffers draws =
     (let fragments_in_event = fragments_of tools;
          named_tool_calls = named_positions tools;
          lc0 = \<lparr>lc_tools = mark_headers tools, lc_rebound = None,
                 lc_buffers = buffers, lc_draws = draws\<rparr>;
          lc1 = (if fragments_in_event \<noteq> [] then
                   (let (buffers', calls, draws') =
                          process_fragments L cfg fragments_in_event buffers draws
                    in lc0\<lparr>lc_rebound := Some calls, lc_buffers := buffers', lc_draws := draws'\<rparr>)
                 else lc0)
      in named_loop L cfg named_tool_calls lc1)"

definition process_sse_event ::
  "py_lib \<Rightarrow> config \<Rightarrow> event \<Rightarrow> request_state option \<Rightarrow> nat \<Rightarrow> sse_result" where
  "process_sse_event L cfg ev registered draws =
     (case registered of
        None \<Rightarrow> Returned ev None draws
      | Some request_state \<Rightarrow>
          (case ev_choices ev of
             None \<Rightarrow> Returned ev (Some request_state) draws
           | Some [] \<Rightarrow> Returned ev (Some request_state) draws
           | Some (ch # later) \<Rightarrow>
               (case ch_delta ch of
                  None \<Rightarrow>
                    Returned ev
                      (Some (request_state\<lparr>rs_tool_buffers :=
                         finish_phase L cfg (ch_finish_reason ch) (rs_tool_buffers request_state)\<rparr>))
                      draws
                | Some dl0 \<Rightarrow>
                    (let (dl, rs, draws1) = xml_phase L cfg dl0 request_state draws
                     in case d_tool_calls dl of
                          None \<Rightarrow>
                            Returned (ev\<lparr>ev_choices := Some (ch\<lparr>ch_delta := Some dl\<rparr> # later)\<rparr>)
                              (Some (rs\<lparr>rs_tool_buffers :=
                                 finish_phase L cfg (ch_finish_reason ch) (rs_tool_buffers rs)\<rparr>))
                              draws1
                        | Some tools \<Rightarrow>
                            (case tool_calls_phase L cfg tools (rs_tool_buffers rs) draws1 of
                               Raise e lc \<Rightarrow>
                                 Raised e (rs\<lparr>rs_tool_buffers := lc_buffers lc\<rparr>) (lc_draws lc)
                             | Ok lc \<Rightarrow>
                                 (let kept = visible_calls lc;
                                      dl' = dl\<lparr>d_tool_calls := (if kept = [] then None else Some kept)\<rparr>
                                  in Returned
                                       (ev\<lparr>ev_choices := Some (ch\<lparr>ch_delta := Some dl'\<rparr> # later)\<rparr>)
                                       (Some (rs\<lparr>rs_tool_buffers :=
                                          finish_phase L cfg (ch_finish_reason ch) (lc_buffers lc)\<rparr>))
                                       (lc_draws lc)))))))"

section \<open>Duplicate detector and forwarding\<close>

text \<open>
  The part of \<^verbatim>\<open>handle_request\<close> that follows \<^verbatim>\<open>process_sse_event\<close> for one payload. The
  signature is the f-string \<^verbatim>\<open>f"{fn.get('name')}|{fn.get('arguments', '')}"\<close>, which prints
  a missing name as \<^verbatim>\<open>None\<close>. The two log messages are kept as \<open>log_entry\<close>. What is
  written to the client is the rewritten event, or the original line when an exception
  was caught: \<^verbatim>\<open>fixed_event.get("choices", [{}])[0]\<close> raises \<^verbatim>\<open>IndexError\<close> on an empty list.
\<close>

definition signature :: "tool_call \<Rightarrow> string" where
  "signature tc =
     (case tc_function tc of
        None \<Rightarrow> ''None''
      | Some fn \<Rightarrow> (case fn_name fn of None \<Rightarrow> ''None'' | Some n \<Rightarrow> n))
     @ ''|'' @
     (case tool_arguments tc of None \<Rightarrow> [] | Some a \<Rightarrow> a)"

datatype log_entry = DuplicateDetected string | Sending string

fun detect_duplicates :: "tool_call list \<Rightarrow> string list \<Rightarrow> string list \<times> log_entry list" where
  "detect_duplicates [] sent = (sent, [])"
| "detect_duplicates (tc # tcs) sent =
     (let sig = signature tc
      in if sig \<in> set sent
         then (let (sent', logs) = detect_duplicates tcs sent
               in (sent', DuplicateDetected sig # logs))
         else (let (sent', logs) = detect_duplicates tcs (sent @ [sig])
               in (sent', Sending sig # logs)))"

datatype written = Payload event | RawLine

definition forwarded_calls :: "event \<Rightarrow> tool_call list option" where
  "forwarded_calls ev =
     (case ev_choices ev of
        None \<Rightarrow> None
      | Some [] \<Rightarrow> None
      | Some (ch # later) \<Rightarrow>
          (case ch_delta ch of None \<Rightarrow> None | Some dl \<Rightarrow> d_tool_calls dl))"

definition forward_event ::
  "event \<Rightarrow> request_state option \<Rightarrow> written \<times> request_state option \<times> log_entry list" where
  "forward_event fixed_event registered =
     (if ev_choices fixed_event = Some [] then (RawLine, registered, [])
      else
        (case forwarded_calls fixed_event of
           None \<Rightarrow> (Payload fixed_event, registered, [])
         | Some tool_calls \<Rightarrow>
             (case registered of
                None \<Rightarrow> (Payload fixed_event, None, [])
              | Some req_state \<Rightarrow>
                  (let (sent, logs) =
                         detect_duplicates tool_calls (rs_sent_tool_signatures req_state)
                   in (Payload fixed_event,
                       Some (req_state\<lparr>rs_sent_tool_signatures := sent\<rparr>), logs)))))"

definition handle_event ::
  "py_lib \<Rightarrow> config \<Rightarrow> event \<Rightarrow> request_state option \<Rightarrow> nat \<Rightarrow>
     written \<times> request_state option \<times> nat \<times> log_entry list" where
  "handle_event L cfg ev registered draws =
     (case process_sse_event L cfg ev registered draws of
        Raised e rs n \<Rightarrow> (RawLine, Some rs, n, [])
      | Returned fixed_event registered' n \<Rightarrow>
          (let (w, registered'', logs) = forward_event fixed_event registered'
           in (w, registered'', n, logs)))"

text \<open>Builders for the closed examples.\<close>

definition mk_tool :: "int option \<Rightarrow> string option \<Rightarrow> string option \<Rightarrow> string option \<Rightarrow> tool_call" where
  "mk_tool i cid nm args =
     \<lparr>tc_index = i, tc_id = cid,
      tc_function = Some \<lparr>fn_name = nm, fn_arguments = args\<rparr>, tc_suppress = False\<rparr>"


definition fresh_state :: request_state where
  "fresh_state = \<lparr>rs_tool_buffers = [], rs_content_buffer = [], rs_sent_tool_signatures = []\<rparr>"

subsection \<open>The fragment block as the specification words it\<close>







section \<open>Properties of the completeness analyzer\<close>

lemma spec_step_bad: "bad st \<Longrightarrow> foldl (spec_step a) st xs = st"
proof (induction xs)
  case Nil
  show ?case by simp
next
  case (Cons x xs)
  have "spec_step a st x = st" using Cons.prems by (simp add: spec_step_def)
  then show ?case using Cons by simp
qed

lemma bad_not_accepted: "bad st \<Longrightarrow> \<not> accepted st"
  by (simp add: accepted_def)

lemma rejected_fold:
  "\<not> accepted (foldl (spec_step a) \<lparr>open_stack = s, in_str = i, pending = p, bad = True\<rparr> xs)"
  by (simp add: spec_step_bad bad_not_accepted)

lemma scan_json_fold:
  "scan_json stack ins esc xs =
     accepted (foldl (spec_step True)
       \<lparr>open_stack = rev stack, in_str = ins, pending = esc, bad = False\<rparr> xs)"
proof (induction xs arbitrary: stack ins esc)
  case Nil
  show ?case by (simp add: accepted_def)
next
  case (Cons c cs)
  let ?st = "\<lparr>open_stack = rev stack, in_str = ins, pending = esc, bad = False\<rparr>"
  have unfold: "foldl (spec_step True) ?st (c # cs) = foldl (spec_step True) (spec_step True ?st c) cs"
    by simp
  show ?case
  proof (cases "esc")
    case True
    then have "spec_step True ?st c = \<lparr>open_stack = rev stack, in_str = ins, pending = False, bad = False\<rparr>"
      by (simp add: spec_step_def)
    then show ?thesis using True unfolding unfold by (simp add: Cons.IH)
  next
    case esc: False
    show ?thesis
    proof (cases "c = backslash")
      case True
      then have "spec_step True ?st c = \<lparr>open_stack = rev stack, in_str = ins, pending = True, bad = False\<rparr>"
        using esc by (simp add: spec_step_def)
      then show ?thesis using True esc unfolding unfold by (simp add: Cons.IH)
    next
      case nb: False
      show ?thesis
      proof (cases "c = dquote")
        case True
        then have "spec_step True ?st c = \<lparr>open_stack = rev stack, in_str = \<not> ins, pending = esc, bad = False\<rparr>"
          using esc nb by (simp add: spec_step_def)
        then show ?thesis using True esc nb unfolding unfold by (simp add: Cons.IH)
      next
        case nq: False
        show ?thesis
        proof (cases ins)
          case True
          then have "spec_step True ?st c = ?st"
            using esc nb nq by (simp add: spec_step_def)
          then show ?thesis using True esc nb nq unfolding unfold by (simp add: Cons.IH)
        next
          case out: False
          show ?thesis
          proof (cases "c = CHR ''{'' \<or> c = CHR ''[''")
            case True
            then have "spec_step True ?st c = \<lparr>open_stack = rev (stack @ [c]), in_str = ins, pending = esc, bad = False\<rparr>"
              using esc nb nq out by (auto simp add: spec_step_def)
            then show ?thesis using True esc nb nq out unfolding unfold
              by (auto simp add: Cons.IH simp del: rev_append)
          next
            case nopen: False
            show ?thesis
            proof (cases "c = CHR ''}'' \<or> c = CHR '']''")
              case closer: True
              show ?thesis
              proof (cases "stack = []")
                case True
                then have "spec_step True ?st c = \<lparr>open_stack = [], in_str = ins, pending = esc, bad = True\<rparr>"
                  using esc nb nq out closer by (auto simp add: spec_step_def)
                then show ?thesis using True esc nb nq out closer nopen unfolding unfold
                  by (auto simp add: rejected_fold)
              next
                case False
                then obtain ys y where st: "stack = ys @ [y]"
                  by (metis rev_exhaust)
                show ?thesis
                proof (cases "closes y c")
                  case True
                  then have "spec_step True ?st c = \<lparr>open_stack = rev ys, in_str = ins, pending = esc, bad = False\<rparr>"
                    using esc nb nq out closer by (auto simp add: spec_step_def st)
                  then show ?thesis using True esc nb nq out closer nopen unfolding unfold
                    by (auto simp add: st Cons.IH closes_def)
                next
                  case False
                  then have "spec_step True ?st c = \<lparr>open_stack = rev stack, in_str = ins, pending = esc, bad = True\<rparr>"
                    using esc nb nq out closer by (auto simp add: spec_step_def st)
                  then show ?thesis using False esc nb nq out closer nopen unfolding unfold
                    by (auto simp add: st rejected_fold closes_def)
                qed
              qed
            next
              case False
              then have "spec_step True ?st c = ?st"
                using esc nb nq out nopen by (simp add: spec_step_def)
              then show ?thesis using False esc nb nq out nopen unfolding unfold
                by (simp add: Cons.IH)
            qed
          qed
        qed
      qed
    qed
  qed
qed

lemma strip_Nil: "strip [] = []"
  by (simp add: strip_def rstrip_def lstrip_def)

lemma blank_strip: "\<forall>c\<in>set s. is_space c \<Longrightarrow> strip s = []"
  by (auto simp add: strip_def rstrip_def lstrip_def dest: set_dropWhileD)

text \<open>
  C2 (as amended). \<open>is_json_complete\<close> is the single left-to-right scan of the
  specification, except that a backslash sets the pending-escape flag wherever it
  stands, inside a string or outside: the text is complete exactly when, stripped, it
  begins with an opening brace or bracket and the scan ends with no mismatched closer,
  an empty stack and the in-string flag false. Empty and whitespace-only text is never
  complete.
\<close>

theorem is_json_complete_scan:
  "is_json_complete text = spec_complete True text \<and>
   ((\<forall>c\<in>set text. is_space c) \<longrightarrow> \<not> is_json_complete text)"
proof
  show "is_json_complete text = spec_complete True text"
    by (auto simp add: is_json_complete_def spec_complete_def Let_def scan_json_fold
        scan_init_def startswith_def strip_Nil)
  show "(\<forall>c\<in>set text. is_space c) \<longrightarrow> \<not> is_json_complete text"
    by (simp add: is_json_complete_def blank_strip)
qed

theorem is_json_complete_scan_witness:
  \<open>is_json_complete ''{"k": [1, "}"]} '' = spec_complete True ''{"k": [1, "}"]} '' \<and>
   is_json_complete ''{"k": [1, "}"]} '' \<and>
   list_all is_space ''  '' \<and> \<not> is_json_complete ''  ''\<close>
  using is_json_complete_scan [of \<open>''{"k": [1, "}"]} ''\<close>] is_json_complete_scan [of \<open>''  ''\<close>]
  by code_simp

text \<open>
  C2 as stated fails: in the text \<^verbatim>\<open>[\]]\<close> the backslash stands outside any string. The
  code skips the bracket after it and accepts the text; the scan in which only a
  backslash inside a string sets the pending-escape flag closes the bracket there and
  then meets a closer on an empty stack.
\<close>

theorem is_json_complete_backslash_counterexample:
  \<open>is_json_complete (''['' @ [backslash] @ '']]'') \<noteq>
   spec_complete False (''['' @ [backslash] @ '']]'')\<close>
  by code_simp

section \<open>Properties of the XML converter\<close>

lemma split_at_char:
  assumes "dropWhile (\<lambda>c. c \<noteq> x) r \<noteq> []"
  shows "r = takeWhile (\<lambda>c. c \<noteq> x) r @ x # tl (dropWhile (\<lambda>c. c \<noteq> x) r)"
proof -
  let ?d = "dropWhile (\<lambda>c. c \<noteq> x) r"
  have "hd ?d = x" using hd_dropWhile [OF assms] by simp
  then have "?d = x # tl ?d" using assms by (cases ?d) auto
  then show ?thesis using takeWhile_dropWhile_id [of "\<lambda>c. c \<noteq> x" r] by simp
qed

lemma takeWhile_upto:
  "x \<notin> set n \<Longrightarrow> takeWhile (\<lambda>c. c \<noteq> x) (n @ x # rest) = n"
  by (induction n) auto

lemma dropWhile_upto:
  "x \<notin> set n \<Longrightarrow> dropWhile (\<lambda>c. c \<noteq> x) (n @ x # rest) = x # rest"
  by (induction n) auto

lemma match_open_tag_iff:
  "match_open_tag lit s = Some (name, rest) \<longleftrightarrow>
     s = lit @ name @ CHR ''>'' # rest \<and> name \<noteq> [] \<and> CHR ''>'' \<notin> set name"
proof
  assume a: "match_open_tag lit s = Some (name, rest)"
  let ?r = "drop (length lit) s"
  from a have pre: "take (length lit) s = lit"
    and n: "name = takeWhile (\<lambda>c. c \<noteq> CHR ''>'') ?r" and ne: "name \<noteq> []"
    and d: "dropWhile (\<lambda>c. c \<noteq> CHR ''>'') ?r \<noteq> []"
    and r: "rest = tl (dropWhile (\<lambda>c. c \<noteq> CHR ''>'') ?r)"
    by (auto simp add: match_open_tag_def startswith_def Let_def split: if_splits)
  have "?r = name @ CHR ''>'' # rest" using split_at_char [OF d] n r by simp
  moreover have "s = lit @ ?r" using pre append_take_drop_id [of "length lit" s] by simp
  moreover have "CHR ''>'' \<notin> set name" using n by (auto dest: set_takeWhileD)
  ultimately show "s = lit @ name @ CHR ''>'' # rest \<and> name \<noteq> [] \<and> CHR ''>'' \<notin> set name"
    using ne by simp
next
  assume "s = lit @ name @ CHR ''>'' # rest \<and> name \<noteq> [] \<and> CHR ''>'' \<notin> set name"
  then show "match_open_tag lit s = Some (name, rest)"
    by (simp add: match_open_tag_def startswith_def Let_def takeWhile_upto dropWhile_upto)
qed

lemma search_function_tag: "search_function s \<noteq> None \<longleftrightarrow> has_function_tag s"
proof
  assume "search_function s \<noteq> None"
  then show "has_function_tag s"
  proof (induction s)
    case Nil
    then show ?case by simp
  next
    case (Cons c cs)
    show ?case
    proof (cases "match_open_tag ''<function='' (c # cs)")
      case None
      then have "has_function_tag cs" using Cons by simp
      then obtain pre name post where "cs = pre @ ''<function='' @ name @ ''>'' @ post"
        "name \<noteq> []" "CHR ''>'' \<notin> set name"
        unfolding has_function_tag_def by blast
      then have "c # cs = (c # pre) @ ''<function='' @ name @ ''>'' @ post \<and>
          name \<noteq> [] \<and> CHR ''>'' \<notin> set name" by simp
      then show ?thesis unfolding has_function_tag_def by blast
    next
      case (Some p)
      obtain name rest where p: "p = (name, rest)" by (cases p)
      have "c # cs = [] @ ''<function='' @ name @ ''>'' @ rest \<and> name \<noteq> [] \<and> CHR ''>'' \<notin> set name"
        using Some p match_open_tag_iff [of "''<function=''" "c # cs" name rest] by simp
      then show ?thesis unfolding has_function_tag_def by blast
    qed
  qed
next
  assume "has_function_tag s"
  then obtain pre name post where s: "s = pre @ ''<function='' @ name @ ''>'' @ post"
    and n: "name \<noteq> []" "CHR ''>'' \<notin> set name"
    unfolding has_function_tag_def by blast
  have m: "match_open_tag ''<function='' (''<function='' @ name @ ''>'' @ post) = Some (name, post)"
    using n match_open_tag_iff [of "''<function=''" "''<function='' @ name @ ''>'' @ post" name post]
    by simp
  have "search_function (pre @ ''<function='' @ name @ ''>'' @ post) \<noteq> None"
  proof (induction pre)
    case Nil
    have "search_function (''<function='' @ name @ ''>'' @ post) = Some name"
      using m by simp
    then show ?case by simp
  next
    case (Cons c pre)
    then show ?case by (simp split: option.splits)
  qed
  then show "search_function s \<noteq> None" using s by simp
qed

lemma match_parameter_iff:
  "match_parameter s = Some ((name, v), rest) \<longleftrightarrow>
     (\<exists>body. s = ''<parameter='' @ name @ ''>'' @ body @ ''</parameter>'' @ rest \<and>
        name \<noteq> [] \<and> CHR ''>'' \<notin> set name \<and> CHR ''<'' \<notin> set body \<and> v = strip body)"
proof
  assume a: "match_parameter s = Some ((name, v), rest)"
  then obtain r where m: "match_open_tag ''<parameter='' s = Some (name, r)"
    and st: "startswith (dropWhile (\<lambda>c. c \<noteq> CHR ''<'') r) ''</parameter>''"
    and v: "v = strip (takeWhile (\<lambda>c. c \<noteq> CHR ''<'') r)"
    and rest: "rest = drop (length ''</parameter>'') (dropWhile (\<lambda>c. c \<noteq> CHR ''<'') r)"
    by (auto simp add: match_parameter_def Let_def split: option.splits if_splits)
  let ?body = "takeWhile (\<lambda>c. c \<noteq> CHR ''<'') r"
  let ?d = "dropWhile (\<lambda>c. c \<noteq> CHR ''<'') r"
  have "?d = take (length ''</parameter>'') ?d @ rest" using rest by simp
  then have d: "?d = ''</parameter>'' @ rest" using st by (simp add: startswith_def)
  have "r = ?body @ ?d" by simp
  then have r: "r = ?body @ ''</parameter>'' @ rest" using d by simp
  have s: "s = ''<parameter='' @ name @ CHR ''>'' # r" and n: "name \<noteq> []" "CHR ''>'' \<notin> set name"
    using m match_open_tag_iff [of "''<parameter=''" s name r] by auto
  have nb: "CHR ''<'' \<notin> set ?body" by (auto dest: set_takeWhileD)
  have "s = ''<parameter='' @ name @ ''>'' @ ?body @ ''</parameter>'' @ rest"
    using s r by simp
  then show "\<exists>body. s = ''<parameter='' @ name @ ''>'' @ body @ ''</parameter>'' @ rest \<and>
        name \<noteq> [] \<and> CHR ''>'' \<notin> set name \<and> CHR ''<'' \<notin> set body \<and> v = strip body"
    using n nb v by blast
next
  assume "\<exists>body. s = ''<parameter='' @ name @ ''>'' @ body @ ''</parameter>'' @ rest \<and>
        name \<noteq> [] \<and> CHR ''>'' \<notin> set name \<and> CHR ''<'' \<notin> set body \<and> v = strip body"
  then obtain body where s: "s = ''<parameter='' @ name @ ''>'' @ body @ ''</parameter>'' @ rest"
    and n: "name \<noteq> []" "CHR ''>'' \<notin> set name" and b: "CHR ''<'' \<notin> set body" and v: "v = strip body"
    by blast
  let ?r = "body @ ''</parameter>'' @ rest"
  have m: "match_open_tag ''<parameter='' s = Some (name, ?r)"
    using s n match_open_tag_iff [of "''<parameter=''" s name ?r] by simp
  have t: "takeWhile (\<lambda>c. c \<noteq> CHR ''<'') ?r = body"
    using takeWhile_upto [OF b, of "''/parameter>'' @ rest"] by simp
  have d: "dropWhile (\<lambda>c. c \<noteq> CHR ''<'') ?r = ''</parameter>'' @ rest"
    using dropWhile_upto [OF b, of "''/parameter>'' @ rest"] by simp
  show "match_parameter s = Some ((name, v), rest)"
    unfolding match_parameter_def m using v by (simp add: t d Let_def startswith_def del: append.simps)
qed

lemma search_parameter_tag: "search_parameter s \<noteq> None \<longleftrightarrow> has_parameter_tag s"
proof
  assume "search_parameter s \<noteq> None"
  then show "has_parameter_tag s"
  proof (induction s)
    case Nil
    then show ?case by simp
  next
    case (Cons c cs)
    show ?case
    proof (cases "match_parameter (c # cs)")
      case None
      then have "has_parameter_tag cs" using Cons by simp
      then obtain pre name body post where
        "cs = pre @ ''<parameter='' @ name @ ''>'' @ body @ ''</parameter>'' @ post"
        "name \<noteq> []" "CHR ''>'' \<notin> set name" "CHR ''<'' \<notin> set body"
        unfolding has_parameter_tag_def by blast
      then have "c # cs = (c # pre) @ ''<parameter='' @ name @ ''>'' @ body @ ''</parameter>'' @ post \<and>
          name \<noteq> [] \<and> CHR ''>'' \<notin> set name \<and> CHR ''<'' \<notin> set body" by simp
      then show ?thesis unfolding has_parameter_tag_def by blast
    next
      case (Some p)
      obtain name v rest where p: "p = ((name, v), rest)" by (cases p) auto
      obtain body where "c # cs = [] @ ''<parameter='' @ name @ ''>'' @ body @ ''</parameter>'' @ rest \<and>
          name \<noteq> [] \<and> CHR ''>'' \<notin> set name \<and> CHR ''<'' \<notin> set body"
        using Some p match_parameter_iff [of "c # cs" name v rest] by auto
      then show ?thesis unfolding has_parameter_tag_def by blast
    qed
  qed
next
  assume "has_parameter_tag s"
  then obtain pre name body post where
    s: "s = pre @ ''<parameter='' @ name @ ''>'' @ body @ ''</parameter>'' @ post"
    and n: "name \<noteq> []" "CHR ''>'' \<notin> set name" "CHR ''<'' \<notin> set body"
    unfolding has_parameter_tag_def by blast
  let ?t = "''<parameter='' @ name @ ''>'' @ body @ ''</parameter>'' @ post"
  have m: "match_parameter ?t = Some ((name, strip body), post)"
    using n match_parameter_iff [of ?t name "strip body" post] by blast
  have "search_parameter (pre @ ?t) \<noteq> None"
  proof (induction pre)
    case Nil
    have "search_parameter ?t = Some ((name, strip body), post)"
      using m by simp
    then show ?case by simp
  next
    case (Cons c pre)
    then show ?case by (simp split: option.splits)
  qed
  then show "search_parameter s \<noteq> None" using s by simp
qed

lemma findall_parameters_tag: "findall_parameters s \<noteq> [] \<longleftrightarrow> has_parameter_tag s"
proof -
  have "findall_parameters s \<noteq> [] \<longleftrightarrow> search_parameter s \<noteq> None"
    by (cases "search_parameter s") auto
  then show ?thesis by (simp only: search_parameter_tag)
qed

lemma strip_trimmed: "trimmed (strip x)"
proof -
  let ?y = "dropWhile is_space x"
  let ?w = "dropWhile is_space (rev ?y)"
  have sx: "strip x = rev ?w" by (simp add: strip_def rstrip_def lstrip_def)
  show ?thesis
  proof (cases "?w = []")
    case True
    then show ?thesis by (simp add: sx trimmed_def)
  next
    case False
    have l: "\<not> is_space (hd ?w)" using hd_dropWhile [OF False] .
    have "rev (rev ?y) = rev (takeWhile is_space (rev ?y) @ ?w)"
      by (simp only: takeWhile_dropWhile_id)
    then have y: "?y = rev ?w @ rev (takeWhile is_space (rev ?y))"
      by (simp only: rev_rev_ident rev_append)
    have "?y = [] \<Longrightarrow> ?w = []" by (simp only: rev.simps dropWhile.simps)
    then have yne: "?y \<noteq> []" using False by blast
    have "hd ?y = hd (rev ?w)" using y False by (metis hd_append2 rev_is_Nil_conv)
    moreover have "\<not> is_space (hd ?y)" using hd_dropWhile [OF yne] .
    ultimately have h: "\<not> is_space (hd (rev ?w))" by simp
    have "last (rev ?w) = hd ?w" using False by (simp add: last_rev)
    then show ?thesis using h l False by (simp add: sx trimmed_def)
  qed
qed

lemma map_of_dict_set: "map_of (dict_set d k v) = (map_of d)(k \<mapsto> v)"
  by (induction d) auto

lemma dict_set_nonempty: "dict_set d k v \<noteq> []"
  by (cases d) (auto split: if_splits)

lemma set_dict_set: "set (dict_set d k v) \<subseteq> insert (k, v) (set d)"
  by (induction d) (auto split: if_splits)

lemma foldl_dict_set_map_of:
  "map_of (foldl (\<lambda>d (k, v). dict_set d (f k) (g v)) d0 xs) =
     map_of (rev (map (\<lambda>(k, v). (f k, g v)) xs) @ d0)"
proof (induction xs arbitrary: d0)
  case Nil
  show ?case by simp
next
  case (Cons x xs)
  obtain k v where x: "x = (k, v)" by (cases x)
  show ?case by (simp add: x Cons.IH map_of_dict_set map_of_append del: map_of.simps)
      (simp add: map_add_def)
qed

lemma foldl_dict_set_nonempty:
  "xs \<noteq> [] \<or> d0 \<noteq> [] \<Longrightarrow> foldl (\<lambda>d (k, v). dict_set d (f k) (g v)) d0 xs \<noteq> []"
proof (induction xs arbitrary: d0)
  case Nil
  then show ?case by simp
next
  case (Cons x xs)
  obtain k v where x: "x = (k, v)" by (cases x)
  show ?case using Cons.IH [of "dict_set d0 (f k) (g v)"] by (simp add: x dict_set_nonempty)
qed

lemma foldl_dict_set_values:
  "(\<forall>(k, v)\<in>set d0. P k v) \<Longrightarrow> (\<forall>k v. P (f k) (g v)) \<Longrightarrow>
     (\<forall>(k, v)\<in>set (foldl (\<lambda>d (k, v). dict_set d (f k) (g v)) d0 xs). P k v)"
proof (induction xs arbitrary: d0)
  case Nil
  then show ?case by simp
next
  case (Cons x xs)
  obtain k v where x: "x = (k, v)" by (cases x)
  have "\<forall>(k', v')\<in>set (dict_set d0 (f k) (g v)). P k' v'"
    using Cons.prems set_dict_set [of d0 "f k" "g v"] by auto
  then show ?case using Cons.IH [of "dict_set d0 (f k) (g v)"] Cons.prems(2) by (simp add: x)
qed

text \<open>
  C7. The converter returns no call exactly when the content has no function tag or
  has no parameter tag. A call it returns has a non-empty argument map, carries the
  stripped name of the leftmost function tag, and maps each stripped parameter name to
  the stripped value of its last tag; every key and value is trimmed.
\<close>

theorem xml_converter:
  "(detect_and_convert_xml_tool_call content = None \<longleftrightarrow>
      \<not> has_function_tag content \<or> \<not> has_parameter_tag content) \<and>
   (\<forall>fname args. detect_and_convert_xml_tool_call content = Some (fname, args) \<longrightarrow>
      args \<noteq> [] \<and>
      (\<exists>g. search_function content = Some g \<and> fname = strip g) \<and>
      map_of args =
        map_of (rev (map (\<lambda>(k, v). (strip k, strip v)) (findall_parameters content))) \<and>
      (\<forall>(k, v)\<in>set args. trimmed k \<and> trimmed v))"
proof (intro conjI allI impI)
  show "detect_and_convert_xml_tool_call content = None \<longleftrightarrow>
      \<not> has_function_tag content \<or> \<not> has_parameter_tag content"
    using search_function_tag [of content] findall_parameters_tag [of content]
    by (auto simp add: detect_and_convert_xml_tool_call_def Let_def split: option.splits)
next
  fix fname args
  assume a: "detect_and_convert_xml_tool_call content = Some (fname, args)"
  let ?ms = "findall_parameters content"
  from a obtain g where g: "search_function content = Some g" and f: "fname = strip g"
    and ne: "?ms \<noteq> []"
    and args: "args = foldl (\<lambda>d (k, v). dict_set d (strip k) (strip v)) [] ?ms"
    by (auto simp add: detect_and_convert_xml_tool_call_def Let_def split: option.splits if_splits)
  show "args \<noteq> []" using ne foldl_dict_set_nonempty [of ?ms "[]" strip strip] args by simp
  show "\<exists>g. search_function content = Some g \<and> fname = strip g" using g f by simp
  show "map_of args = map_of (rev (map (\<lambda>(k, v). (strip k, strip v)) ?ms))"
    using foldl_dict_set_map_of [of strip strip "[]" ?ms] args by simp
  show "\<forall>(k, v)\<in>set args. trimmed k \<and> trimmed v"
    unfolding args
    by (rule foldl_dict_set_values) (simp_all add: strip_trimmed)
qed

theorem xml_converter_witness:
  \<open>detect_and_convert_xml_tool_call
      ''<function=glob><parameter=pattern>*.py</parameter></function>'' =
      Some (''glob'', [(''pattern'', ''*.py'')]) \<and>
   has_function_tag ''<function=glob><parameter=pattern>*.py</parameter></function>'' \<and>
   has_parameter_tag ''<function=glob><parameter=pattern>*.py</parameter></function>'' \<and>
   trimmed ''*.py'' \<and>
   detect_and_convert_xml_tool_call ''<function=glob></function>'' = None \<and>
   \<not> has_parameter_tag ''<function=glob></function>''\<close>
proof -
  have a: \<open>detect_and_convert_xml_tool_call
      ''<function=glob><parameter=pattern>*.py</parameter></function>'' =
      Some (''glob'', [(''pattern'', ''*.py'')])\<close>
    by code_simp
  have b: \<open>detect_and_convert_xml_tool_call ''<function=glob></function>'' = None\<close>
    by code_simp
  have c: \<open>has_function_tag ''<function=glob></function>''\<close>
    unfolding has_function_tag_def
    by (rule exI [of _ "[]"], rule exI [of _ "''glob''"], rule exI [of _ "''</function>''"]) simp
  show ?thesis
    using xml_converter [of \<open>''<function=glob><parameter=pattern>*.py</parameter></function>''\<close>]
      xml_converter [of \<open>''<function=glob></function>''\<close>] a b c
    by auto
qed

section \<open>Properties of the fix rule engine\<close>







text \<open>
  C6. Under the rule list of the read tool, \<open>apply_fixes\<close> on \<open>read\<close> with the
  arguments \<open>filePath = a.py\<close>, \<open>content = x\<close> returns the tool name \<open>write\<close> and
  both fields unchanged; arguments without \<open>filePath\<close> come back unchanged under the
  name \<open>read\<close>.
\<close>

theorem read_converts_to_write:
  assumes "map_of (cfg_tools cfg) ''read'' = Some yaml_read_fixes"
  shows "apply_fixes L cfg ''read'' (JObj [(''filePath'', JStr ''a.py''), (''content'', JStr ''x'')]) =
           Inr (''write'', JObj [(''filePath'', JStr ''a.py''), (''content'', JStr ''x'')]) \<and>
         (\<forall>d. map_of d ''filePath'' = None \<longrightarrow>
            apply_fixes L cfg ''read'' (JObj d) = Inr (''read'', JObj d))"
proof -
  have l: "lower ''read'' = ''read''" by code_simp
  have f: "yaml_read_fixes \<noteq> []" by (simp add: yaml_read_fixes_def)
  have c: "check_condition [(''filePath'', JStr ''a.py''), (''content'', JStr ''x'')] ''content'' ''exists'' fx"
    for fx by (simp add: check_condition_def)
  show ?thesis
  proof (intro conjI allI impI)
    show "apply_fixes L cfg ''read'' (JObj [(''filePath'', JStr ''a.py''), (''content'', JStr ''x'')]) =
           Inr (''write'', JObj [(''filePath'', JStr ''a.py''), (''content'', JStr ''x'')])"
      using assms f
      by (simp add: apply_fixes_def Let_def l)
         (simp add: yaml_read_fixes_def mk_fix_def apply_single_fix_def c)
  next
    fix d :: "(string \<times> json) list"
    assume m: "map_of d ''filePath'' = None"
    have "apply_single_fix L d (hd yaml_read_fixes) = (Plain False, d)"
      using m by (simp add: yaml_read_fixes_def mk_fix_def apply_single_fix_def Let_def)
    then have "apply_fix_list L yaml_read_fixes ''read'' d = (''read'', d)"
      by (simp add: yaml_read_fixes_def)
    then show "apply_fixes L cfg ''read'' (JObj d) = Inr (''read'', JObj d)"
      using assms f by (simp add: apply_fixes_def Let_def l)
  qed
qed


theorem read_converts_to_write_witness:
  \<open>map_of (cfg_tools (default_config\<lparr>cfg_tools := [(''read'', yaml_read_fixes)]\<rparr>)) ''read'' =
     Some yaml_read_fixes \<and>
   apply_fixes stdlib (default_config\<lparr>cfg_tools := [(''read'', yaml_read_fixes)]\<rparr>) ''read''
     (JObj [(''filePath'', JStr ''a.py''), (''content'', JStr ''x'')]) =
     Inr (''write'', JObj [(''filePath'', JStr ''a.py''), (''content'', JStr ''x'')]) \<and>
   apply_fixes stdlib (default_config\<lparr>cfg_tools := [(''read'', yaml_read_fixes)]\<rparr>) ''read''
     (JObj [(''content'', JStr ''x'')]) = Inr (''read'', JObj [(''content'', JStr ''x'')])\<close>
proof -
  let ?cfg = \<open>default_config\<lparr>cfg_tools := [(''read'', yaml_read_fixes)]\<rparr>\<close>
  have h: \<open>map_of (cfg_tools ?cfg) ''read'' = Some yaml_read_fixes\<close> by simp
  have m: \<open>map_of [(''content'', JStr ''x'')] ''filePath'' = None\<close> by simp
  show ?thesis
    using read_converts_to_write [OF h, of stdlib] h m by blast
qed

text \<open>
  The embedded fallback configuration, used when the configuration file cannot be
  loaded, has another rule for the read tool: it removes \<open>content\<close> and keeps the name.
\<close>

lemma read_under_default_config:
  \<open>apply_fixes stdlib default_config ''read''
     (JObj [(''filePath'', JStr ''a.py''), (''content'', JStr ''x'')]) =
     Inr (''read'', JObj [(''filePath'', JStr ''a.py'')])\<close>
  by code_simp

section \<open>Properties of the repair engine\<close>

lemma try_attempts_first_adopted:
  assumes "tc_function tool = Some fn"
  shows "try_attempts L cfg s tool tool_name fs =
     (case first_adopted L cfg tool_name (map (\<lambda>f. f (strip s)) fs) of
        None \<Rightarrow> (False, tool)
      | Some (n, a) \<Rightarrow> (True, set_call tool fn n a))"
proof (induction fs)
  case Nil
  show ?case by simp
next
  case (Cons f fs)
  show ?case
  proof (cases "loads L (f (strip s))")
    case None
    then show ?thesis using Cons by (simp add: adopted_def)
  next
    case (Some v)
    show ?thesis
    proof (cases "apply_fixes L cfg tool_name v")
      case (Inl e)
      then show ?thesis using Cons Some by (simp add: adopted_def)
    next
      case (Inr r)
      obtain n a where r: "r = (n, a)" by (cases r)
      show ?thesis using Some Inr r assms by (simp add: adopted_def set_call_def)
    qed
  qed
qed

lemma recovery_candidates:
  "map (\<lambda>f. f s) recovery_attempts = candidates True s"
  by (simp add: recovery_attempts_def candidates_def)

text \<open>
  C4 (as amended). Recovery tries four candidates built from the stripped text, in this
  order: the text with a malformed trailing duplicate-key fragment cut down to a closing
  brace; the text without trailing commas plus a closing brace; the text plus a closing
  brace; the text wrapped in an opening and a closing brace when it does not start with
  an opening brace (the text itself otherwise). The first candidate that parses and
  passes the fix engine without an exception wins, and its name and arguments are
  written to the tool. If none does, recovery reports failure and leaves the tool as it
  is, and \<open>process_complete_buffer\<close>, called on a buffer whose text does not parse, returns
  the tool unchanged.
\<close>

theorem try_json_recovery_order:
  assumes "tc_function tool = Some fn"
  shows "try_json_recovery L cfg s tool tool_name =
           (case first_adopted L cfg tool_name (candidates True (strip s)) of
              None \<Rightarrow> (False, tool)
            | Some (n, a) \<Rightarrow> (True, set_call tool fn n a)) \<and>
         (loads L (buf_content b) = None \<and>
          first_adopted L cfg (buf_tool_name b) (candidates True (strip (buf_content b))) = None
          \<longrightarrow> process_complete_buffer L cfg b tool = tool)"
proof
  show "try_json_recovery L cfg s tool tool_name =
           (case first_adopted L cfg tool_name (candidates True (strip s)) of
              None \<Rightarrow> (False, tool)
            | Some (n, a) \<Rightarrow> (True, set_call tool fn n a))"
    unfolding try_json_recovery_def
    by (simp only: try_attempts_first_adopted [OF assms] recovery_candidates)
  show "loads L (buf_content b) = None \<and>
          first_adopted L cfg (buf_tool_name b) (candidates True (strip (buf_content b))) = None
          \<longrightarrow> process_complete_buffer L cfg b tool = tool"
  proof
    assume a: "loads L (buf_content b) = None \<and>
          first_adopted L cfg (buf_tool_name b) (candidates True (strip (buf_content b))) = None"
    have "try_json_recovery L cfg (buf_content b) tool (buf_tool_name b) = (False, tool)"
      unfolding try_json_recovery_def
      using a by (simp only: try_attempts_first_adopted [OF assms] recovery_candidates) simp
    then show "process_complete_buffer L cfg b tool = tool"
      using a by (simp add: process_complete_buffer_def Let_def)
  qed
qed

theorem try_json_recovery_order_witness:
  \<open>tc_function \<lparr>tc_index = None, tc_id = Some ''x'',
       tc_function = Some \<lparr>fn_name = Some ''bash'', fn_arguments = Some []\<rparr>,
       tc_suppress = False\<rparr> = Some \<lparr>fn_name = Some ''bash'', fn_arguments = Some []\<rparr> \<and>
   candidates True ''{"command": "ls",'' =
     [''{"command": "ls",'', ''{"command": "ls"}'', ''{"command": "ls",}'', ''{"command": "ls",''] \<and>
   try_json_recovery stdlib default_config '' {"command": "ls", ''
     \<lparr>tc_index = None, tc_id = Some ''x'',
      tc_function = Some \<lparr>fn_name = Some ''bash'', fn_arguments = Some []\<rparr>,
      tc_suppress = False\<rparr> ''bash'' =
     (True, \<lparr>tc_index = None, tc_id = Some ''x'',
        tc_function = Some \<lparr>fn_name = Some ''bash'',
          fn_arguments = Some ''{"command": "ls", "description": "Execute the given shell command"}''\<rparr>,
        tc_suppress = False\<rparr>) \<and>
   loads stdlib ''{x}'' = None \<and>
   first_adopted stdlib default_config ''bash'' (candidates True ''{x}'') = None \<and>
   process_complete_buffer stdlib default_config
     \<lparr>buf_call_id = ''x'', buf_content = ''{x}'', buf_tool_name = ''bash''\<rparr>
     \<lparr>tc_index = None, tc_id = Some ''x'',
      tc_function = Some \<lparr>fn_name = Some ''bash'', fn_arguments = Some ''{x}''\<rparr>,
      tc_suppress = False\<rparr> =
     \<lparr>tc_index = None, tc_id = Some ''x'',
      tc_function = Some \<lparr>fn_name = Some ''bash'', fn_arguments = Some ''{x}''\<rparr>,
      tc_suppress = False\<rparr>\<close>
proof -
  let ?fn = \<open>\<lparr>fn_name = Some ''bash'', fn_arguments = Some []\<rparr>\<close>
  let ?tool = \<open>\<lparr>tc_index = None, tc_id = Some ''x'', tc_function = Some ?fn, tc_suppress = False\<rparr>\<close>
  let ?fn2 = \<open>\<lparr>fn_name = Some ''bash'', fn_arguments = Some ''{x}''\<rparr>\<close>
  let ?tool2 = \<open>\<lparr>tc_index = None, tc_id = Some ''x'', tc_function = Some ?fn2, tc_suppress = False\<rparr>\<close>
  let ?b = \<open>\<lparr>buf_call_id = ''x'', buf_content = ''{x}'', buf_tool_name = ''bash''\<rparr>\<close>
  have h: \<open>tc_function ?tool = Some ?fn\<close> by simp
  have h2: \<open>tc_function ?tool2 = Some ?fn2\<close> by simp
  have c: \<open>candidates True ''{"command": "ls",'' =
     [''{"command": "ls",'', ''{"command": "ls"}'', ''{"command": "ls",}'', ''{"command": "ls",'']\<close>
    by code_simp
  have s: \<open>strip '' {"command": "ls", '' = ''{"command": "ls",''\<close> by code_simp
  have f: \<open>first_adopted stdlib default_config ''bash'' (candidates True ''{"command": "ls",'') =
     Some (''bash'', ''{"command": "ls", "description": "Execute the given shell command"}'')\<close>
    by code_simp
  have l: \<open>loads stdlib ''{x}'' = None\<close> by code_simp
  have s2: \<open>strip ''{x}'' = ''{x}''\<close> by code_simp
  have f2: \<open>first_adopted stdlib default_config ''bash'' (candidates True ''{x}'') = None\<close>
    by code_simp
  show ?thesis
    using try_json_recovery_order [OF h, of stdlib default_config \<open>'' {"command": "ls", ''\<close> \<open>''bash''\<close> ?b]
      try_json_recovery_order [OF h2, of stdlib default_config \<open>''{x}''\<close> \<open>''bash''\<close> ?b]
      c s f l s2 f2
    by (simp add: set_call_def)
qed

text \<open>
  C4 as stated fails on the fourth transform. For the text \<^verbatim>\<open>"a": 1\<close> the code builds the
  candidate \<^verbatim>\<open>{"a": 1}\<close>, which parses, so recovery succeeds; prepending only an opening
  brace gives \<^verbatim>\<open>{"a": 1\<close>, and no candidate of the specification's list parses.
\<close>

theorem try_json_recovery_wrap_counterexample:
  \<open>try_json_recovery stdlib default_config ''"a": 1''
     \<lparr>tc_index = None, tc_id = Some ''x'',
      tc_function = Some \<lparr>fn_name = Some ''glob'', fn_arguments = Some []\<rparr>,
      tc_suppress = False\<rparr> ''glob'' =
     (True, \<lparr>tc_index = None, tc_id = Some ''x'',
        tc_function = Some \<lparr>fn_name = Some ''glob'', fn_arguments = Some ''{"a": 1}''\<rparr>,
        tc_suppress = False\<rparr>) \<and>
   spec_recovery stdlib ''"a": 1'' = None\<close>
  by code_simp

text \<open>
  C5 (as amended). When the stripped text parses and has no more opening braces than
  closing braces and no more opening brackets than closing brackets, counted over the
  whole text, bracket-closing repair appends nothing: it returns the stripped text and
  does not report failure.
\<close>

theorem try_fix_incomplete_json_balanced:
  assumes "loads L (strip s) \<noteq> None"
    and "count_list (strip s) (CHR ''{'') \<le> count_list (strip s) (CHR ''}'')"
    and "count_list (strip s) (CHR ''['') \<le> count_list (strip s) (CHR '']'')"
  shows "try_fix_incomplete_json L s = Some (strip s)"
proof (cases "strip s = []")
  case True
  then show ?thesis by (simp add: try_fix_incomplete_json_def)
next
  case False
  obtain v where v: "loads L (strip s) = Some v" using assms(1) by blast
  show ?thesis using False v assms(2,3) by (simp add: try_fix_incomplete_json_def Let_def)
qed

theorem try_fix_incomplete_json_balanced_witness:
  \<open>loads stdlib (strip '' {"a": [1, 2]} '') \<noteq> None \<and>
   count_list (strip '' {"a": [1, 2]} '') (CHR ''{'') \<le> count_list (strip '' {"a": [1, 2]} '') (CHR ''}'') \<and>
   count_list (strip '' {"a": [1, 2]} '') (CHR ''['') \<le> count_list (strip '' {"a": [1, 2]} '') (CHR '']'') \<and>
   try_fix_incomplete_json stdlib '' {"a": [1, 2]} '' = Some ''{"a": [1, 2]}''\<close>
proof -
  have a: \<open>loads stdlib (strip '' {"a": [1, 2]} '') \<noteq> None\<close> by code_simp
  have b: \<open>count_list (strip '' {"a": [1, 2]} '') (CHR ''{'') \<le> count_list (strip '' {"a": [1, 2]} '') (CHR ''}'')\<close>
    by code_simp
  have c: \<open>count_list (strip '' {"a": [1, 2]} '') (CHR ''['') \<le> count_list (strip '' {"a": [1, 2]} '') (CHR '']'')\<close>
    by code_simp
  have s: \<open>strip '' {"a": [1, 2]} '' = ''{"a": [1, 2]}''\<close> by code_simp
  show ?thesis using try_fix_incomplete_json_balanced [OF a b c] a b c s by simp
qed

text \<open>
  C5 as stated fails: the text \<^verbatim>\<open>{"a": "{"}\<close> is complete, valid JSON, but the count finds
  two opening braces and one closing brace, a closing brace is appended, the result no
  longer parses, and the repair reports failure.
\<close>

theorem try_fix_incomplete_json_counterexample:
  \<open>json_parse ''{"a": "{"}'' = Inr (JObj [(''a'', JStr ''{'')]) \<and>
   is_json_complete ''{"a": "{"}'' \<and>
   try_fix_incomplete_json stdlib ''{"a": "{"}'' = None\<close>
  by code_simp

section \<open>Properties of the duplicate detector\<close>





section \<open>Properties of the stream event processor\<close>

text \<open>
  C10. An event without choices, or with an empty list of choices, is returned as it
  is, with the state untouched. Of an event with choices only the first is rewritten:
  the returned event has the same later choices and the same other keys. When the first
  choice has a delta without content and without tool calls, the whole event is
  returned unchanged.
\<close>

theorem first_choice_only:
  "((ev_choices ev = None \<or> ev_choices ev = Some []) \<longrightarrow>
      process_sse_event L cfg ev reg n = Returned ev reg n) \<and>
   (\<forall>ch later ev' reg' n'.
      ev_choices ev = Some (ch # later) \<and>
      process_sse_event L cfg ev reg n = Returned ev' reg' n' \<longrightarrow>
      (\<exists>ch'. ev_choices ev' = Some (ch' # later)) \<and> ev_other ev' = ev_other ev) \<and>
   (\<forall>ch later dl.
      ev_choices ev = Some (ch # later) \<and> ch_delta ch = Some dl \<and>
      (d_content dl = None \<or> d_content dl = Some []) \<and> d_tool_calls dl = None \<longrightarrow>
      (\<exists>reg'. process_sse_event L cfg ev reg n = Returned ev reg' n))"
proof (intro conjI allI impI)
  assume "ev_choices ev = None \<or> ev_choices ev = Some []"
  then show "process_sse_event L cfg ev reg n = Returned ev reg n"
    by (auto simp add: process_sse_event_def split: option.splits)
next
  fix ch later ev' reg' n'
  assume a: "ev_choices ev = Some (ch # later) \<and>
      process_sse_event L cfg ev reg n = Returned ev' reg' n'"
  then have "(\<exists>ch'. ev_choices ev' = Some (ch' # later)) \<and> ev_other ev' = ev_other ev"
    by (auto simp add: process_sse_event_def Let_def
        split: option.splits prod.splits outcome.splits)
  then show "\<exists>ch'. ev_choices ev' = Some (ch' # later)" and "ev_other ev' = ev_other ev"
    by simp_all
next
  fix ch later dl
  assume a: "ev_choices ev = Some (ch # later) \<and> ch_delta ch = Some dl \<and>
      (d_content dl = None \<or> d_content dl = Some []) \<and> d_tool_calls dl = None"
  then have x: "xml_phase L cfg dl rs n = (dl, rs, n)" for rs
    by (auto simp add: xml_phase_def)
  have e: "ev\<lparr>ev_choices := Some (ch\<lparr>ch_delta := Some dl\<rparr> # later)\<rparr> = ev"
    using a by simp
  show "\<exists>reg'. process_sse_event L cfg ev reg n = Returned ev reg' n"
    using a x e by (cases reg) (simp_all add: process_sse_event_def)
qed

theorem first_choice_only_witness:
  \<open>process_sse_event stdlib default_config \<lparr>ev_choices = Some [], ev_other = []\<rparr>
     (Some fresh_state) 0 = Returned \<lparr>ev_choices = Some [], ev_other = []\<rparr> (Some fresh_state) 0 \<and>
   process_sse_event stdlib default_config
     \<lparr>ev_choices = Some
        [\<lparr>ch_delta = Some \<lparr>d_content = None, d_tool_calls = None, d_other = []\<rparr>,
          ch_finish_reason = None, ch_other = []\<rparr>,
         \<lparr>ch_delta = Some \<lparr>d_content = Some ''<function=glob><parameter=pattern>*.py</parameter>'',
                            d_tool_calls = Some [mk_tool (Some 0) None None (Some ''{}'')],
                            d_other = []\<rparr>,
          ch_finish_reason = None, ch_other = []\<rparr>],
      ev_other = []\<rparr>
     (Some fresh_state) 0 =
   Returned
     \<lparr>ev_choices = Some
        [\<lparr>ch_delta = Some \<lparr>d_content = None, d_tool_calls = None, d_other = []\<rparr>,
          ch_finish_reason = None, ch_other = []\<rparr>,
         \<lparr>ch_delta = Some \<lparr>d_content = Some ''<function=glob><parameter=pattern>*.py</parameter>'',
                            d_tool_calls = Some [mk_tool (Some 0) None None (Some ''{}'')],
                            d_other = []\<rparr>,
          ch_finish_reason = None, ch_other = []\<rparr>],
      ev_other = []\<rparr>
     (Some fresh_state) 0\<close>
proof -
  let ?e1 = \<open>\<lparr>ev_choices = Some [], ev_other = []\<rparr> :: event\<close>
  let ?e2 = \<open>\<lparr>ev_choices = Some
        [\<lparr>ch_delta = Some \<lparr>d_content = None, d_tool_calls = None, d_other = []\<rparr>,
          ch_finish_reason = None, ch_other = []\<rparr>,
         \<lparr>ch_delta = Some \<lparr>d_content = Some ''<function=glob><parameter=pattern>*.py</parameter>'',
                            d_tool_calls = Some [mk_tool (Some 0) None None (Some ''{}'')],
                            d_other = []\<rparr>,
          ch_finish_reason = None, ch_other = []\<rparr>],
      ev_other = []\<rparr>\<close>
  have a: \<open>process_sse_event stdlib default_config ?e2 (Some fresh_state) 0 =
     Returned ?e2 (Some fresh_state) 0\<close>
    by code_simp
  have b: \<open>ev_choices ?e1 = Some []\<close> by simp
  show ?thesis
    using first_choice_only [of ?e1 stdlib default_config \<open>Some fresh_state\<close> 0]
      first_choice_only [of ?e2 stdlib default_config \<open>Some fresh_state\<close> 0] a b
    by simp
qed




lemma dict_set_absent: "map_of d k = None \<Longrightarrow> map_of (dict_set d k v) k = Some v"
  by (simp add: map_of_dict_set)

lemma map_of_dict_del: "map_of (dict_del d k) = (map_of d)(k := None)"
  by (induction d) (auto simp add: dict_del_def)





end
